theory Spec2Isabelle
  imports Main "HOL-Library.AList"
begin

section \<open>Strings and paths\<close>

text \<open>
  Python strings are modelled as \<open>string\<close>. The characters that cannot be written inside
  a literal get a name each.
\<close>

definition bs :: char where
  "bs = CHR 0x5C"

definition dq :: char where
  "dq = CHR 0x22"

definition nl :: char where
  "nl = CHR 0x0A"

text \<open>\<open>s.startswith(p)\<close> and \<open>s.endswith(p)\<close>.\<close>

fun startswith :: "string \<Rightarrow> string \<Rightarrow> bool" where
  "startswith s [] = True"
| "startswith [] (p # ps) = False"
| "startswith (c # cs) (p # ps) = (c = p \<and> startswith cs ps)"

definition endswith :: "string \<Rightarrow> string \<Rightarrow> bool" where
  "endswith s p = startswith (rev s) (rev p)"

text \<open>\<open>sub in s\<close> on strings: \<open>sub\<close> occurs in \<open>s\<close> as a contiguous run.\<close>

fun contains :: "string \<Rightarrow> string \<Rightarrow> bool" where
  "contains [] sub = (sub = [])"
| "contains (c # cs) sub = (startswith (c # cs) sub \<or> contains cs sub)"

text \<open>
  \<open>s.split(c)\<close> for a one-character separator: the result is never empty, and an empty
  string splits into one empty segment.
\<close>

fun split :: "string \<Rightarrow> char \<Rightarrow> string list" where
  "split [] c = [[]]"
| "split (x # xs) c =
     (if x = c then [] # split xs c
      else (case split xs c of
              [] \<Rightarrow> [[x]]
            | seg # segs \<Rightarrow> (x # seg) # segs))"

text \<open>\<open>sep.join(parts)\<close>.\<close>

fun join :: "string \<Rightarrow> string list \<Rightarrow> string" where
  "join sep [] = []"
| "join sep [p] = p"
| "join sep (p # q # ps) = p @ sep @ join sep (q # ps)"

text \<open>
  A character is a code point below 256. \<open>c.isspace()\<close> holds there for the control
  characters 9 to 13 and 28 to 31, the space, NEL (0x85) and the no-break space (0xA0);
  \<open>s.strip()\<close> removes these from both ends. \<open>s.lower()\<close> maps the capital letters to
  the small ones: A to Z, and 0xC0 to 0xDE without the multiplication sign 0xD7.
\<close>

definition isspace :: "char \<Rightarrow> bool" where
  "isspace c = (of_char c \<in> {9, 10, 11, 12, 13, 28, 29, 30, 31, 32, 133, 160 :: nat})"

definition strip :: "string \<Rightarrow> string" where
  "strip s = rev (dropWhile isspace (rev (dropWhile isspace s)))"

definition lower_char :: "char \<Rightarrow> char" where
  "lower_char c =
     (if 65 \<le> (of_char c :: nat) \<and> (of_char c :: nat) \<le> 90
      then char_of (of_char c + 32 :: nat)
      else if 192 \<le> (of_char c :: nat) \<and> (of_char c :: nat) \<le> 222
              \<and> (of_char c :: nat) \<noteq> 215
      then char_of (of_char c + 32 :: nat)
      else c)"

definition lower :: "string \<Rightarrow> string" where
  "lower s = map lower_char s"

text \<open>
  Paths are strings in the form \<open>str(Path(p))\<close> gives them, so that \<open>Path\<close> and \<open>str\<close>
  are the identity. \<open>a / b\<close> on Windows paths: nothing is inserted after an empty path
  or a bare drive (\<open>Path("C:") / "RuPing"\<close> is \<open>C:RuPing\<close>).
\<close>

definition pjoin :: "string \<Rightarrow> string \<Rightarrow> string" where
  "pjoin a b =
     (if a = [] then b
      else if last a = CHR '':'' \<or> last a = bs then a @ b
      else a @ [bs] @ b)"

section \<open>The machine\<close>

text \<open>
  The record written by \<open>save_install_info\<close>, as \<open>json.load\<close> gives it back; a key that
  may be missing from a file is an option.
\<close>

record ledger =
  info_install_path :: "string option"
  info_version :: string
  info_aliases :: "string list"
  info_installed_files :: "string list option"

text \<open>A file holds bytes, or a JSON document that parses to a ledger.\<close>

datatype fdata = Raw string | Json ledger

text \<open>The two ways the programs notify the other processes of a changed environment.\<close>

datatype broadcast =
  SendMessageW nat nat
| SendMessageTimeoutW nat nat nat nat

datatype 'a outcome = Returned 'a | Exited nat | Raised

text \<open>
  Everything the two programs read or change. A directory is a key of \<open>fs\<close> with its
  regular files, a file is a pair of its directory and its name. The subdirectories of
  the directories are the pairs of parent and name in \<open>subdirs\<close>; their names are other
  than the names of the files the programs handle, so that \<open>exists\<close>, \<open>open\<close>, \<open>copy2\<close>
  and \<open>unlink\<close> meet regular files only, and they count when a directory is listed.
  \<^item> \<open>user_is_admin\<close>: what \<open>IsUserAnAdmin()\<close> returns, \<open>None\<close> when the call raises;
  \<^item> \<open>reg_path\<close>: the PATH value of the registry key, \<open>None\<close> when the key cannot be
    opened or read; \<open>reg_writable\<close>: whether \<open>SetValueEx\<close> succeeds;
  \<^item> \<open>broadcast_raises\<close>: whether the user32 call raises; \<open>sent\<close>: the calls made;
  \<^item> \<open>denied\<close>: the files that cannot be read, written or unlinked;
    \<open>protected_dirs\<close>: the directories that cannot be created or removed;
  \<^item> \<open>stdin\<close>: the lines \<open>input()\<close> will read; \<open>stdout\<close>: the ERROR and cancellation
    lines printed (progress, warning and debug lines are left out, and so is the text of
    an exception inside a line);
  \<^item> \<open>meipass\<close>: \<open>sys._MEIPASS\<close> when the program runs from a bundle;
    \<open>script_dir\<close> and \<open>script_parent\<close>: \<open>Path(__file__).parent\<close> and its parent;
    \<open>cwd\<close> and \<open>cwd_release\<close>: the directories \<open>Path(filename)\<close> and
    \<open>Path("../target/release")\<close> resolve to;
    \<open>argv0_dir\<close>: \<open>Path(sys.argv[0]).resolve().parent\<close>, \<open>None\<close> when \<open>sys.argv\<close> is empty;
  \<^item> \<open>b64decode\<close>: \<open>base64.b64decode\<close>, \<open>None\<close> when it raises.
\<close>

record world =
  user_is_admin :: "bool option"
  environ :: "(string \<times> string) list"
  reg_path :: "string option"
  reg_writable :: bool
  broadcast_raises :: bool
  sent :: "broadcast list"
  fs :: "string \<Rightarrow> (string \<times> fdata) list option"
  subdirs :: "(string \<times> string) list"
  denied :: "(string \<times> string) list"
  protected_dirs :: "string list"
  stdin :: "string list"
  stdout :: "string list"
  meipass :: "string option"
  script_dir :: string
  script_parent :: string
  cwd :: string
  cwd_release :: string
  argv0_dir :: "string option"
  b64decode :: "string \<Rightarrow> string option"

subsection \<open>File system primitives\<close>

text \<open>\<open>Path(d).exists()\<close> for a directory and \<open>(Path(d) / n).exists()\<close> for a file.\<close>

definition dir_exists :: "world \<Rightarrow> string \<Rightarrow> bool" where
  "dir_exists w d = (fs w d \<noteq> None)"

definition read_file :: "world \<Rightarrow> string \<Rightarrow> string \<Rightarrow> fdata option" where
  "read_file w d n = (case fs w d of None \<Rightarrow> None | Some es \<Rightarrow> map_of es n)"

definition file_exists :: "world \<Rightarrow> string \<Rightarrow> string \<Rightarrow> bool" where
  "file_exists w d n = (read_file w d n \<noteq> None)"

text \<open>
  \<open>Path(d).mkdir(parents=True, exist_ok=True)\<close>; \<open>None\<close> when it raises. A directory
  that is created is empty.
\<close>

definition mkdir :: "world \<Rightarrow> string \<Rightarrow> world option" where
  "mkdir w d =
     (if dir_exists w d then Some w
      else if d \<in> set (protected_dirs w) then None
      else Some (w\<lparr>fs := (fs w)(d \<mapsto> []),
                   subdirs := filter (\<lambda>p. fst p \<noteq> d) (subdirs w)\<rparr>))"

text \<open>\<open>any(Path(d).iterdir())\<close> for a directory that exists: it holds a file or a subdirectory.\<close>

definition has_entries :: "world \<Rightarrow> string \<Rightarrow> (string \<times> fdata) list \<Rightarrow> bool" where
  "has_entries w d es = (d \<in> set (map fst (subdirs w)) \<or> es \<noteq> [])"

text \<open>Opening a file for writing and writing \<open>x\<close> to it; \<open>None\<close> when it raises.\<close>

definition write_file :: "world \<Rightarrow> string \<Rightarrow> string \<Rightarrow> fdata \<Rightarrow> world option" where
  "write_file w d n x =
     (case fs w d of
        None \<Rightarrow> None
      | Some es \<Rightarrow>
          if (d, n) \<in> set (denied w) then None
          else Some (w\<lparr>fs := (fs w)(d \<mapsto> AList.update n x es)\<rparr>))"

text \<open>
  \<open>shutil.copy2(src, dst)\<close>: raises when the source cannot be read, when both are the
  same file, or when the target cannot be written.
\<close>

definition copy2 :: "world \<Rightarrow> string \<times> string \<Rightarrow> string \<times> string \<Rightarrow> world option" where
  "copy2 w src dst =
     (case read_file w (fst src) (snd src) of
        None \<Rightarrow> None
      | Some x \<Rightarrow>
          if src \<in> set (denied w) \<or> src = dst then None
          else write_file w (fst dst) (snd dst) x)"

text \<open>\<open>path.unlink()\<close>; \<open>None\<close> when it raises.\<close>

definition unlink :: "world \<Rightarrow> string \<Rightarrow> string \<Rightarrow> world option" where
  "unlink w d n =
     (case fs w d of
        None \<Rightarrow> None
      | Some es \<Rightarrow>
          if map_of es n = None \<or> (d, n) \<in> set (denied w) then None
          else Some (w\<lparr>fs := (fs w)(d \<mapsto> AList.delete n es)\<rparr>))"

text \<open>\<open>path.rmdir()\<close> of a directory; \<open>None\<close> when it raises (it is not empty).\<close>

definition rmdir :: "world \<Rightarrow> string \<Rightarrow> world option" where
  "rmdir w d =
     (case fs w d of
        None \<Rightarrow> None
      | Some es \<Rightarrow>
          if has_entries w d es then None
          else if d \<in> set (protected_dirs w) then None
          else Some (w\<lparr>fs := (fs w)(d := None)\<rparr>))"

text \<open>\<open>print(line)\<close> and \<open>input()\<close>; \<open>input\<close> raises at the end of the input.\<close>

definition print :: "world \<Rightarrow> string \<Rightarrow> world" where
  "print w line = w\<lparr>stdout := stdout w @ [line]\<rparr>"

definition input :: "world \<Rightarrow> (string \<times> world) option" where
  "input w =
     (case stdin w of
        [] \<Rightarrow> None
      | line # rest \<Rightarrow> Some (line, w\<lparr>stdin := rest\<rparr>))"

text \<open>\<open>os.environ.get(k, default)\<close>.\<close>

definition environ_get :: "world \<Rightarrow> string \<Rightarrow> string \<Rightarrow> string" where
  "environ_get w k dflt = (case map_of (environ w) k of None \<Rightarrow> dflt | Some v \<Rightarrow> v)"

section \<open>The installer\<close>

text \<open>The table \<open>EMBEDDED_FILES\<close> of \<open>installer.py\<close>.\<close>

definition cmd_text :: string where
  "cmd_text = ''@echo off'' @ [nl] @ [dq] @ ''%~dp0ruping.exe'' @ [dq] @ '' %*'' @ [nl]"

definition EMBEDDED_FILES :: "(string \<times> string) list" where
  "EMBEDDED_FILES =
     [(''ruping.exe'', []),
      (''uninstaller.py'', []),
      (''ruping.cmd'', cmd_text),
      (''rustping.cmd'', cmd_text),
      (''rping.cmd'', cmd_text)]"

definition app_name :: string where
  "app_name = ''RuPing''"

definition exe_name :: string where
  "exe_name = ''ruping.exe''"

definition aliases :: "string list" where
  "aliases = [''ruping'', ''rustping'', ''rping'']"

definition install_info_file :: string where
  "install_info_file = ''install_info.json''"

definition default_install_path :: "world \<Rightarrow> string" where
  "default_install_path w =
     pjoin (environ_get w ''PROGRAMFILES'' (''C:'' @ [bs] @ ''Program Files'')) app_name"

text \<open>\<open>is_admin\<close>, the same in both programs: a probe that raises counts as not elevated.\<close>

definition is_admin :: "world \<Rightarrow> bool" where
  "is_admin w = (case user_is_admin w of None \<Rightarrow> False | Some b \<Rightarrow> b)"

text \<open>\<open>require_admin\<close> of the installer: \<open>sys.exit(1)\<close> when not elevated.\<close>

definition require_admin :: "world \<Rightarrow> unit outcome \<times> world" where
  "require_admin w =
     (if \<not> is_admin w then
        (Exited 1,
         print (print w ''ERROR: Administrator privileges required.'')
           ''Please run this installer as administrator.'')
      else (Returned (), w))"

text \<open>
  The pattern \<open>try: parent.mkdir(...); action; return True; except: ...\<close> of
  \<open>extract_embedded_file\<close>: whether the block ran to its end, and the world it leaves
  (a directory created before the action raised stays).
\<close>

definition in_parent :: "world \<Rightarrow> string \<Rightarrow> (world \<Rightarrow> world option) \<Rightarrow> bool \<times> world" where
  "in_parent w d act =
     (case mkdir w d of
        None \<Rightarrow> (False, w)
      | Some w1 \<Rightarrow>
          (case act w1 of
             None \<Rightarrow> (False, w1)
           | Some w2 \<Rightarrow> (True, w2)))"

text \<open>The candidates \<open>local_paths\<close>, in the order of the source.\<close>

definition local_paths :: "world \<Rightarrow> string \<Rightarrow> (string \<times> string) list" where
  "local_paths w filename =
     [(cwd w, filename),
      (if endswith filename ''.exe'' then (cwd_release w, filename) else (cwd w, filename)),
      (script_dir w, filename),
      (if endswith filename ''.exe''
       then (pjoin (pjoin (script_parent w) ''target'') ''release'', filename)
       else (cwd w, filename))]"

text \<open>The loop over \<open>local_paths\<close>: a candidate whose copy raises is skipped.\<close>

fun try_local_paths :: "world \<Rightarrow> (string \<times> string) list \<Rightarrow> string \<times> string \<Rightarrow> bool \<times> world" where
  "try_local_paths w [] target_path = (False, w)"
| "try_local_paths w (local_path # rest) target_path =
     (if file_exists w (fst local_path) (snd local_path) then
        (case in_parent w (fst target_path) (\<lambda>w1. copy2 w1 local_path target_path) of
           (True, w') \<Rightarrow> (True, w')
         | (False, w') \<Rightarrow> try_local_paths w' rest target_path)
      else try_local_paths w rest target_path)"

text \<open>
  \<open>extract_embedded_file(filename, target_path)\<close>; the target is the pair of its
  directory and its name. The \<open>debug\<close> argument only prints and is left out. A binary
  entry of the table is opened for writing (which empties the file) before its text is
  decoded.
\<close>

definition extract_embedded_file :: "world \<Rightarrow> string \<Rightarrow> string \<times> string \<Rightarrow> bool \<times> world" where
  "extract_embedded_file w filename target_path =
     (let bundled = (case meipass w of
                       None \<Rightarrow> False
                     | Some bundle_dir \<Rightarrow> file_exists w bundle_dir filename)
      in
      if bundled then
        (case meipass w of
           None \<Rightarrow> (False, w)
         | Some bundle_dir \<Rightarrow>
             (case in_parent w (fst target_path)
                     (\<lambda>w1. copy2 w1 (bundle_dir, filename) target_path) of
                (False, w') \<Rightarrow> (False, w')
              | (True, w') \<Rightarrow>
                  (if file_exists w' (fst target_path) (snd target_path)
                   then (True, w') else (False, w'))))
      else
        (case map_of EMBEDDED_FILES filename of
           None \<Rightarrow> try_local_paths w (local_paths w filename) target_path
         | Some content \<Rightarrow>
             if content = [] then (False, w)
             else if endswith filename ''.exe'' then
               (case in_parent w (fst target_path)
                       (\<lambda>w1. write_file w1 (fst target_path) (snd target_path) (Raw [])) of
                  (False, w') \<Rightarrow> (False, w')
                | (True, w') \<Rightarrow>
                    (case b64decode w content of
                       None \<Rightarrow> (False, w')
                     | Some bytes \<Rightarrow>
                         (case write_file w' (fst target_path) (snd target_path) (Raw bytes) of
                            None \<Rightarrow> (False, w')
                          | Some w'' \<Rightarrow> (True, w''))))
             else
               in_parent w (fst target_path)
                 (\<lambda>w1. write_file w1 (fst target_path) (snd target_path) (Raw content))))"

definition HWND_BROADCAST :: nat where
  "HWND_BROADCAST = 0xFFFF"

definition WM_SETTINGCHANGE :: nat where
  "WM_SETTINGCHANGE = 0x001A"

definition SMTO_ABORTIFHUNG :: nat where
  "SMTO_ABORTIFHUNG = 0x0002"

text \<open>
  \<open>add_to_path(path_to_add)\<close>: the test is Python's \<open>in\<close> on the whole PATH string. An
  exception anywhere in the block, also in the broadcast after the value is written,
  makes the result \<open>False\<close>.
\<close>

definition add_to_path :: "world \<Rightarrow> string \<Rightarrow> bool \<times> world" where
  "add_to_path w path_to_add =
     (case reg_path w of
        None \<Rightarrow> (False, w)
      | Some current_path \<Rightarrow>
          if \<not> contains current_path path_to_add then
            (let new_path = current_path @ '';'' @ path_to_add in
             if \<not> reg_writable w then (False, w)
             else
               (let w1 = w\<lparr>reg_path := Some new_path\<rparr> in
                if broadcast_raises w1 then (False, w1)
                else (True, w1\<lparr>sent := sent w1 @ [SendMessageW HWND_BROADCAST WM_SETTINGCHANGE]\<rparr>)))
          else (True, w))"

definition start_menu_dir :: "string \<Rightarrow> string" where
  "start_menu_dir programdata =
     pjoin (pjoin (pjoin (pjoin programdata ''Microsoft'') ''Windows'') ''Start Menu'') ''Programs''"

definition url_content :: "string \<Rightarrow> string" where
  "url_content install_dir =
     ''[InternetShortcut]'' @ [nl] @
     ''URL=file:///'' @ pjoin install_dir exe_name @ [nl] @
     ''IconFile='' @ pjoin install_dir exe_name @ [nl] @
     ''IconIndex=0'' @ [nl]"

text \<open>\<open>create_start_menu_shortcut(install_dir)\<close>: a missing PROGRAMDATA is a \<open>KeyError\<close>.\<close>

definition create_start_menu_shortcut :: "world \<Rightarrow> string \<Rightarrow> bool \<times> world" where
  "create_start_menu_shortcut w install_dir =
     (case map_of (environ w) ''PROGRAMDATA'' of
        None \<Rightarrow> (False, w)
      | Some programdata \<Rightarrow>
          (case write_file w (start_menu_dir programdata) ''RuPing.url''
                  (Raw (url_content install_dir)) of
             None \<Rightarrow> (False, w)
           | Some w' \<Rightarrow> (True, w')))"

definition install_info :: "string \<Rightarrow> ledger" where
  "install_info install_dir =
     \<lparr>info_install_path = Some install_dir,
      info_version = ''0.1.0'',
      info_aliases = aliases,
      info_installed_files =
        Some ([exe_name, ''ruping-uninstaller.exe'', install_info_file]
              @ map (\<lambda>alias. alias @ ''.cmd'') aliases)\<rparr>"

text \<open>\<open>save_install_info(install_dir)\<close>: a failure to write is a warning.\<close>

definition save_install_info :: "world \<Rightarrow> string \<Rightarrow> world" where
  "save_install_info w install_dir =
     (case write_file w install_dir install_info_file (Json (install_info install_dir)) of
        None \<Rightarrow> w
      | Some w' \<Rightarrow> w')"

definition files_to_extract :: "string list" where
  "files_to_extract =
     [exe_name, ''ruping-uninstaller.exe''] @ map (\<lambda>alias. alias @ ''.cmd'') aliases"

text \<open>
  The extraction loop of \<open>install\<close>: every file goes to \<open>install_dir / filename\<close>, and the
  first failure prints an error and ends the loop with \<open>False\<close>.
\<close>

fun extract_files :: "world \<Rightarrow> string \<Rightarrow> string list \<Rightarrow> bool \<times> world" where
  "extract_files w install_dir [] = (True, w)"
| "extract_files w install_dir (filename # rest) =
     (case extract_embedded_file w filename (install_dir, filename) of
        (False, w') \<Rightarrow> (False, print w' (''ERROR: Failed to extract '' @ filename))
      | (True, w') \<Rightarrow> extract_files w' install_dir rest)"

text \<open>
  The directory \<open>install\<close> installs into: the argument when \<open>if install_path:\<close> holds
  (a string that is given and not empty), or the default.
\<close>

definition chosen_install_dir :: "world \<Rightarrow> string option \<Rightarrow> string" where
  "chosen_install_dir w install_path =
     (case install_path of
        None \<Rightarrow> default_install_path w
      | Some p \<Rightarrow> if p \<noteq> [] then p else default_install_path w)"

text \<open>\<open>install(install_path, no_path, silent)\<close>.\<close>

definition install :: "world \<Rightarrow> string option \<Rightarrow> bool \<Rightarrow> bool \<Rightarrow> bool outcome \<times> world" where
  "install w install_path no_path silent =
     (case require_admin w of
        (Exited code, w0) \<Rightarrow> (Exited code, w0)
      | (Raised, w0) \<Rightarrow> (Raised, w0)
      | (Returned u, w0) \<Rightarrow>
          (let install_dir = chosen_install_dir w0 install_path in
           case mkdir w0 install_dir of
             None \<Rightarrow> (Returned False, print w0 ''ERROR: Failed to create installation directory'')
           | Some w1 \<Rightarrow>
               (case extract_files w1 install_dir files_to_extract of
                  (False, w2) \<Rightarrow> (Returned False, w2)
                | (True, w2) \<Rightarrow>
                    (let w3 = (if \<not> no_path then snd (add_to_path w2 install_dir) else w2);
                         w4 = snd (create_start_menu_shortcut w3 install_dir);
                         w5 = save_install_info w4 install_dir
                     in (Returned True, w5)))))"

section \<open>The uninstaller\<close>

text \<open>\<open>require_admin\<close> of the uninstaller.\<close>

definition un_require_admin :: "world \<Rightarrow> unit outcome \<times> world" where
  "un_require_admin w =
     (if \<not> is_admin w then
        (Exited 1,
         print (print w ''ERROR: Administrator privileges required.'')
           ''Please run this uninstaller as administrator.'')
      else (Returned (), w))"

text \<open>
  \<open>remove_from_path(path_to_remove)\<close>: an exception of the broadcast is caught inside
  and only warns.
\<close>

definition remove_from_path :: "world \<Rightarrow> string \<Rightarrow> bool \<times> world" where
  "remove_from_path w path_to_remove =
     (case reg_path w of
        None \<Rightarrow> (False, w)
      | Some current_path \<Rightarrow>
          (let paths = split current_path CHR '';'';
               new_paths = filter (\<lambda>p. p \<noteq> path_to_remove) paths;
               new_path = join '';'' new_paths
           in
           if \<not> reg_writable w then (False, w)
           else
             (let w1 = w\<lparr>reg_path := Some new_path\<rparr> in
              if broadcast_raises w1 then (True, w1)
              else
                (True,
                 w1\<lparr>sent := sent w1 @
                    [SendMessageTimeoutW HWND_BROADCAST WM_SETTINGCHANGE SMTO_ABORTIFHUNG 3000]\<rparr>))))"

text \<open>
  The loop of \<open>remove_start_menu_shortcut\<close> over the shortcut names; an \<open>unlink\<close> that
  raises ends the function with \<open>False\<close>.
\<close>

fun remove_shortcuts :: "world \<Rightarrow> string \<Rightarrow> string list \<Rightarrow> bool \<Rightarrow> bool \<times> world" where
  "remove_shortcuts w start_menu [] removed = (removed, w)"
| "remove_shortcuts w start_menu (shortcut # rest) removed =
     (if file_exists w start_menu shortcut then
        (case unlink w start_menu shortcut of
           None \<Rightarrow> (False, w)
         | Some w' \<Rightarrow> remove_shortcuts w' start_menu rest True)
      else remove_shortcuts w start_menu rest removed)"

definition remove_start_menu_shortcut :: "world \<Rightarrow> bool \<times> world" where
  "remove_start_menu_shortcut w =
     (case map_of (environ w) ''PROGRAMDATA'' of
        None \<Rightarrow> (False, w)
      | Some programdata \<Rightarrow>
          remove_shortcuts w (start_menu_dir programdata) [''RuPing.lnk'', ''RuPing.url''] False)"

text \<open>The directory \<open>find_installation\<close> starts from.\<close>

definition current_dir :: "world \<Rightarrow> string" where
  "current_dir w =
     (case meipass w of
        None \<Rightarrow> script_dir w
      | Some m \<Rightarrow> (case argv0_dir w of None \<Rightarrow> script_dir w | Some d \<Rightarrow> d))"

definition possible_paths :: "world \<Rightarrow> string list" where
  "possible_paths w =
     [pjoin (environ_get w ''PROGRAMFILES'' (''C:'' @ [bs] @ ''Program Files'')) app_name,
      pjoin (environ_get w ''LOCALAPPDATA'' []) app_name,
      pjoin ''C:'' app_name]"

text \<open>
  Reading the ledger: \<open>open\<close>, \<open>json.load\<close> and \<open>info['install_path']\<close>; \<open>None\<close> when one
  of them raises (a file that cannot be read, bytes that are no JSON, a missing key).
\<close>

definition load_info :: "world \<Rightarrow> string \<Rightarrow> (string \<times> ledger) option" where
  "load_info w d =
     (if (d, install_info_file) \<in> set (denied w) then None
      else
        (case read_file w d install_info_file of
           None \<Rightarrow> None
         | Some (Raw bytes) \<Rightarrow> None
         | Some (Json info) \<Rightarrow>
             (case info_install_path info of
                None \<Rightarrow> None
              | Some p \<Rightarrow> Some (p, info))))"

text \<open>The heuristics of \<open>find_installation\<close>, used when no ledger could be read.\<close>

definition find_by_heuristics :: "world \<Rightarrow> string option" where
  "find_by_heuristics w =
     (if file_exists w (current_dir w) ''ruping.exe'' then Some (current_dir w)
      else List.find (\<lambda>path. dir_exists w path \<and> file_exists w path ''ruping.exe'')
             (possible_paths w))"

text \<open>\<open>find_installation()\<close>: the directory and the ledger, each \<open>None\<close> when not found.\<close>

definition find_installation :: "world \<Rightarrow> string option \<times> ledger option" where
  "find_installation w =
     (let info_read =
            (if file_exists w (current_dir w) install_info_file
             then load_info w (current_dir w) else None)
      in
      case info_read of
        Some (p, info) \<Rightarrow> (Some p, Some info)
      | None \<Rightarrow> (find_by_heuristics w, None))"

text \<open>The default list of \<open>uninstall\<close>, used when no ledger names the files.\<close>

definition default_files :: "string list" where
  "default_files =
     [''ruping.exe'', ''ruping.cmd'', ''rustping.cmd'', ''rping.cmd'',
      ''uninstaller.py'', ''install_info.json'']"

text \<open>The deletion loop: a file that is absent is skipped, one that cannot be unlinked warns.\<close>

fun remove_files :: "world \<Rightarrow> string \<Rightarrow> string list \<Rightarrow> world" where
  "remove_files w install_dir [] = w"
| "remove_files w install_dir (filename # rest) =
     (if file_exists w install_dir filename then
        (case unlink w install_dir filename of
           None \<Rightarrow> remove_files w install_dir rest
         | Some w' \<Rightarrow> remove_files w' install_dir rest)
      else remove_files w install_dir rest)"

text \<open>
  The last step: the directory is removed when \<open>iterdir\<close> finds nothing in it, neither a
  file nor a subdirectory; an exception warns.
\<close>

definition remove_dir_if_empty :: "world \<Rightarrow> string \<Rightarrow> world" where
  "remove_dir_if_empty w install_dir =
     (case fs w install_dir of
        None \<Rightarrow> w
      | Some es \<Rightarrow>
          if \<not> has_entries w install_dir es
          then (case rmdir w install_dir of None \<Rightarrow> w | Some w' \<Rightarrow> w')
          else w)"

text \<open>
  The part of \<open>uninstall\<close> after the confirmation: PATH, shortcut, files, directory.
\<close>

definition do_uninstall :: "world \<Rightarrow> string \<Rightarrow> ledger option \<Rightarrow> world" where
  "do_uninstall w install_dir info =
     (let w1 = snd (remove_from_path w install_dir);
          w2 = snd (remove_start_menu_shortcut w1);
          files_to_remove =
            (case info of
               None \<Rightarrow> default_files
             | Some i \<Rightarrow>
                 (case info_installed_files i of
                    None \<Rightarrow> default_files
                  | Some files \<Rightarrow> files));
          w3 = remove_files w2 install_dir files_to_remove
      in remove_dir_if_empty w3 install_dir)"

text \<open>
  The confirmation of \<open>uninstall\<close>, asked unless \<open>silent\<close>: \<open>None\<close> when \<open>input\<close> raises,
  else whether the answer is \<open>y\<close> or \<open>yes\<close>, and the world after reading (and after the
  cancellation line).
\<close>

definition confirm :: "world \<Rightarrow> bool \<Rightarrow> (bool \<times> world) option" where
  "confirm w silent =
     (if \<not> silent then
        (case input w of
           None \<Rightarrow> None
         | Some (line, w1) \<Rightarrow>
             if lower (strip line) \<notin> set [''y'', ''yes'']
             then Some (False, print w1 ''Uninstall cancelled.'')
             else Some (True, w1))
      else Some (True, w))"

text \<open>
  Where \<open>uninstall\<close> looks: the argument when it is given and not empty (then without a
  ledger), else \<open>find_installation\<close>.
\<close>

definition locate_installation :: "world \<Rightarrow> string option \<Rightarrow> string option \<times> ledger option" where
  "locate_installation w install_path =
     (case install_path of
        None \<Rightarrow> find_installation w
      | Some p \<Rightarrow> if p \<noteq> [] then (Some p, None) else find_installation w)"

text \<open>
  The rest of \<open>uninstall\<close> once a directory that exists is known.
\<close>

definition confirm_and_uninstall ::
  "world \<Rightarrow> string \<Rightarrow> ledger option \<Rightarrow> bool \<Rightarrow> bool outcome \<times> world" where
  "confirm_and_uninstall w install_dir info silent =
     (case confirm w silent of
        None \<Rightarrow> (Raised, w)
      | Some (False, w1) \<Rightarrow> (Returned False, w1)
      | Some (True, w1) \<Rightarrow> (Returned True, do_uninstall w1 install_dir info))"

text \<open>\<open>uninstall(install_path, silent)\<close>.\<close>

definition uninstall :: "world \<Rightarrow> string option \<Rightarrow> bool \<Rightarrow> bool outcome \<times> world" where
  "uninstall w install_path silent =
     (case un_require_admin w of
        (Exited code, w0) \<Rightarrow> (Exited code, w0)
      | (Raised, w0) \<Rightarrow> (Raised, w0)
      | (Returned u, w0) \<Rightarrow>
          (case locate_installation w0 install_path of
             (found, info) \<Rightarrow>
               (let missing = (case found of None \<Rightarrow> True | Some d \<Rightarrow> \<not> dir_exists w0 d) in
                if missing then
                  (let w1 = print w0 ''ERROR: RuPing installation not found.'' in
                   if \<not> silent then
                     (case input w1 of
                        None \<Rightarrow> (Raised, w1)
                      | Some (line, w2) \<Rightarrow>
                          (let custom_path = strip line in
                           if custom_path \<noteq> [] \<and> dir_exists w2 custom_path
                           then confirm_and_uninstall w2 custom_path info silent
                           else (Returned False, print w2 ''Uninstall cancelled.'')))
                   else (Returned False, w1))
                else
                  (case found of
                     None \<Rightarrow> (Returned False, w0)
                   | Some install_dir \<Rightarrow> confirm_and_uninstall w0 install_dir info silent))))"

section \<open>A concrete machine\<close>

text \<open>
  An elevated run of the bundled installer on a machine without the product: the bundle
  holds the two executables, the target directory does not exist yet.
\<close>

definition target_dir :: string where
  "target_dir = ''C:'' @ [bs] @ ''RuPing''"

definition bundle_dir :: string where
  "bundle_dir = ''C:'' @ [bs] @ ''Temp'' @ [bs] @ ''_MEI42''"

definition programdata_dir :: string where
  "programdata_dir = ''C:'' @ [bs] @ ''ProgramData''"

definition machine :: world where
  "machine =
     \<lparr>user_is_admin = Some True,
      environ = [(''PROGRAMFILES'', ''C:'' @ [bs] @ ''Program Files''),
                 (''PROGRAMDATA'', programdata_dir)],
      reg_path = Some (''C:'' @ [bs] @ ''Windows''),
      reg_writable = True,
      broadcast_raises = False,
      sent = [],
      fs = [bundle_dir \<mapsto> [(''ruping.exe'', Raw ''MZ-ruping''),
                           (''ruping-uninstaller.exe'', Raw ''MZ-uninstaller'')],
            start_menu_dir programdata_dir \<mapsto> [],
            ''.'' \<mapsto> []],
      subdirs = [],
      denied = [],
      protected_dirs = [],
      stdin = [],
      stdout = [],
      meipass = Some bundle_dir,
      script_dir = bundle_dir,
      script_parent = ''C:'' @ [bs] @ ''Temp'',
      cwd = ''.'',
      cwd_release = ''..'' @ [bs] @ ''target'' @ [bs] @ ''release'',
      argv0_dir = Some (''C:'' @ [bs] @ ''Downloads''),
      b64decode = (\<lambda>s. None)\<rparr>"

text \<open>The PATH value of the example of the specification, and its target.\<close>

definition example_path :: string where
  "example_path = ''C:'' @ [bs] @ ''A;C:'' @ [bs] @ ''B;C:'' @ [bs] @ ''Target''"

definition example_target :: string where
  "example_target = ''C:'' @ [bs] @ ''Target''"

text \<open>The machine after a silent installation into \<open>target_dir\<close>.\<close>

definition installed_machine :: world where
  "installed_machine = snd (install machine (Some target_dir) False True)"

text \<open>
  The same machine with a ledger that is no JSON, and the uninstaller started from the
  installation directory.
\<close>

definition corrupt_machine :: world where
  "corrupt_machine =
     installed_machine
       \<lparr>argv0_dir := Some target_dir,
        fs := (fs installed_machine)
          (target_dir \<mapsto>
             [(''ruping.exe'', Raw ''MZ-ruping''),
              (''ruping-uninstaller.exe'', Raw ''MZ-uninstaller''),
              (''ruping.cmd'', Raw cmd_text),
              (''rustping.cmd'', Raw cmd_text),
              (''rping.cmd'', Raw cmd_text),
              (''install_info.json'', Raw ''{install_path: '')])\<rparr>"

text \<open>
  The installer run as a script from a checkout: no bundle; the working directory holds
  a launcher script of its own, the build output holds an uninstaller.
\<close>

definition dev_machine :: world where
  "dev_machine =
     machine
       \<lparr>meipass := None,
        script_dir := ''C:'' @ [bs] @ ''src'' @ [bs] @ ''installer'',
        script_parent := ''C:'' @ [bs] @ ''src'',
        fs := (fs machine)
          (''.'' \<mapsto> [(''ruping.cmd'', Raw ''rem local'')],
           ''..'' @ [bs] @ ''target'' @ [bs] @ ''release'' \<mapsto>
             [(''ruping-uninstaller.exe'', Raw ''MZ-local-uninstaller'')])\<rparr>"

section \<open>Splitting and joining\<close>

lemma split_nonempty: "split s c \<noteq> []"
  by (induction s) (auto split: list.splits)

lemma split_no_sep: "x \<in> set (split s c) \<Longrightarrow> c \<notin> set x"
proof (induction s arbitrary: x)
  case Nil
  then show ?case by simp
next
  case (Cons a s)
  then show ?case
    by (cases "split s c") (auto split: if_splits)
qed

lemma join_split: "join [c] (split s c) = s"
proof (induction s)
  case Nil
  then show ?case by simp
next
  case (Cons a s)
  show ?case
  proof (cases "split s c")
    case Nil
    then show ?thesis using split_nonempty by blast
  next
    case (Cons seg segs)
    with Cons.IH show ?thesis
      by (cases segs) auto
  qed
qed

lemma split_no_sep_string: "c \<notin> set x \<Longrightarrow> split x c = [x]"
  by (induction x) auto

lemma split_append_sep:
  "c \<notin> set x \<Longrightarrow> split (x @ c # rest) c = x # split rest c"
  by (induction x) auto

lemma split_join:
  "xs \<noteq> [] \<Longrightarrow> \<forall>x \<in> set xs. c \<notin> set x \<Longrightarrow> split (join [c] xs) c = xs"
proof (induction xs)
  case Nil
  then show ?case by simp
next
  case (Cons p ps)
  show ?case
  proof (cases ps)
    case Nil
    with Cons.prems show ?thesis by (simp add: split_no_sep_string)
  next
    case (Cons q qs)
    with Cons.IH Cons.prems have "split (join [c] ps) c = ps" by simp
    with Cons Cons.prems show ?thesis by (simp add: split_append_sep)
  qed
qed

lemma filter_split_id:
  "\<forall>p \<in> set (split s c). p \<noteq> dir \<Longrightarrow> join [c] (filter (\<lambda>p. p \<noteq> dir) (split s c)) = s"
  by (simp add: join_split filter_id_conv)

lemma rejoin_idem:
  "join [c] (filter (\<lambda>p. p \<noteq> dir) (split (join [c] (filter (\<lambda>p. p \<noteq> dir) (split s c))) c))
   = join [c] (filter (\<lambda>p. p \<noteq> dir) (split s c))"
proof (cases "filter (\<lambda>p. p \<noteq> dir) (split s c) = []")
  case True
  then show ?thesis by simp
next
  case False
  have "\<forall>x \<in> set (filter (\<lambda>p. p \<noteq> dir) (split s c)). c \<notin> set x"
    using split_no_sep by auto
  with False have "split (join [c] (filter (\<lambda>p. p \<noteq> dir) (split s c))) c
      = filter (\<lambda>p. p \<noteq> dir) (split s c)"
    by (rule split_join)
  then show ?thesis by simp
qed


section \<open>The search path\<close>

lemma remove_from_path_ok:
  assumes "reg_path w = Some s" and "reg_writable w"
  shows "fst (remove_from_path w dir)"
    and "reg_path (snd (remove_from_path w dir)) =
           Some (join '';'' (filter (\<lambda>p. p \<noteq> dir) (split s CHR '';'')))"
  using assms by (simp_all add: remove_from_path_def Let_def)

text \<open>
  Claim C4. When the PATH value \<open>s\<close> can be read and written, \<open>remove_from_path\<close>
  succeeds and stores \<open>s\<close> split at the semicolons, without the segments equal to the
  directory, joined again in the same order. When a segment remains, the segments of the
  stored value are exactly the remaining ones, duplicates and empty segments included.
  On the value \<open>C:\A;C:\B;C:\Target\<close>, removing \<open>C:\Target\<close> stores \<open>C:\A;C:\B\<close>.
\<close>

theorem remove_from_path_rewrite:
  assumes "reg_path w = Some s" and "reg_writable w"
  shows "fst (remove_from_path w dir)
       \<and> reg_path (snd (remove_from_path w dir)) =
           Some (join '';'' (filter (\<lambda>p. p \<noteq> dir) (split s CHR '';'')))
       \<and> ((\<exists>p \<in> set (split s CHR '';''). p \<noteq> dir) \<longrightarrow>
            split (join '';'' (filter (\<lambda>p. p \<noteq> dir) (split s CHR '';''))) CHR '';''
              = filter (\<lambda>p. p \<noteq> dir) (split s CHR '';''))
       \<and> reg_path (snd (remove_from_path (w\<lparr>reg_path := Some example_path\<rparr>) example_target)) =
           Some (''C:'' @ [bs] @ ''A;C:'' @ [bs] @ ''B'')"
proof -
  let ?kept = "filter (\<lambda>p. p \<noteq> dir) (split s CHR '';'')"
  have seg: "(\<exists>p \<in> set (split s CHR '';''). p \<noteq> dir) \<longrightarrow> split (join '';'' ?kept) CHR '';'' = ?kept"
  proof
    assume "\<exists>p \<in> set (split s CHR '';''). p \<noteq> dir"
    then have ne: "?kept \<noteq> []" by (simp add: filter_empty_conv)
    have "\<forall>x \<in> set ?kept. CHR '';'' \<notin> set x" using split_no_sep by auto
    with ne show "split (join '';'' ?kept) CHR '';'' = ?kept" by (rule split_join)
  qed
  have ex: "join '';'' (filter (\<lambda>p. p \<noteq> example_target) (split example_path CHR '';''))
      = ''C:'' @ [bs] @ ''A;C:'' @ [bs] @ ''B''"
    by (simp add: example_path_def example_target_def bs_def)
  have w': "reg_path (w\<lparr>reg_path := Some example_path\<rparr>) = Some example_path"
    "reg_writable (w\<lparr>reg_path := Some example_path\<rparr>)"
    using assms by simp_all
  show ?thesis
    using remove_from_path_ok[OF assms] remove_from_path_ok(2)[OF w'] seg ex by simp
qed

theorem remove_from_path_rewrite_witness:
  "reg_path (machine\<lparr>reg_path := Some example_path\<rparr>) = Some example_path
   \<and> reg_writable (machine\<lparr>reg_path := Some example_path\<rparr>)
   \<and> (\<exists>p \<in> set (split example_path CHR '';''). p \<noteq> example_target)
   \<and> fst (remove_from_path (machine\<lparr>reg_path := Some example_path\<rparr>) example_target)
   \<and> reg_path (snd (remove_from_path (machine\<lparr>reg_path := Some example_path\<rparr>) example_target))
       = Some (''C:'' @ [bs] @ ''A;C:'' @ [bs] @ ''B'')
   \<and> split (''C:'' @ [bs] @ ''A;C:'' @ [bs] @ ''B'') CHR '';'' = [''C:'' @ [bs] @ ''A'', ''C:'' @ [bs] @ ''B'']"
  using remove_from_path_rewrite[of "machine\<lparr>reg_path := Some example_path\<rparr>" example_path example_target]
  by (simp add: machine_def example_path_def example_target_def bs_def)

text \<open>
  Claim C10. When no segment of \<open>s\<close> equals the directory, splitting, filtering and
  joining gives \<open>s\<close> back, so \<open>remove_from_path\<close> stores \<open>s\<close> itself; and on every
  machine, removing twice leaves the stored value that removing once leaves.
\<close>

theorem remove_from_path_idempotent:
  "((\<forall>p \<in> set (split s CHR '';''). p \<noteq> dir) \<longrightarrow>
      join '';'' (filter (\<lambda>p. p \<noteq> dir) (split s CHR '';'')) = s
      \<and> (reg_path w = Some s \<and> reg_writable w \<longrightarrow>
           reg_path (snd (remove_from_path w dir)) = Some s))
   \<and> reg_path (snd (remove_from_path (snd (remove_from_path w dir)) dir))
       = reg_path (snd (remove_from_path w dir))"
proof -
  have a: "(\<forall>p \<in> set (split s CHR '';''). p \<noteq> dir) \<longrightarrow>
      join '';'' (filter (\<lambda>p. p \<noteq> dir) (split s CHR '';'')) = s"
    using filter_split_id[of s "CHR '';''" dir] by simp
  have b: "reg_path (snd (remove_from_path (snd (remove_from_path w dir)) dir))
       = reg_path (snd (remove_from_path w dir))"
  proof (cases "reg_path w")
    case None
    then show ?thesis by (simp add: remove_from_path_def)
  next
    case (Some cur)
    show ?thesis
    proof (cases "reg_writable w")
      case False
      with Some show ?thesis by (simp add: remove_from_path_def Let_def)
    next
      case True
      let ?w1 = "snd (remove_from_path w dir)"
      have 1: "reg_path ?w1 = Some (join '';'' (filter (\<lambda>p. p \<noteq> dir) (split cur CHR '';'')))"
        using remove_from_path_ok(2)[OF Some True] .
      have 2: "reg_writable ?w1"
        using Some True by (simp add: remove_from_path_def Let_def)
      show ?thesis
        using remove_from_path_ok(2)[OF 1 2] 1 rejoin_idem[of "CHR '';''" dir cur] by simp
    qed
  qed
  from a b show ?thesis
    by (simp add: remove_from_path_def Let_def)
qed

theorem remove_from_path_idempotent_witness:
  "split ''a;;b;a'' CHR '';'' = [''a'', [], ''b'', ''a'']
   \<and> example_target \<notin> set [''a'', [], ''b'', ''a'']
   \<and> reg_path (machine\<lparr>reg_path := Some ''a;;b;a''\<rparr>) = Some ''a;;b;a''
   \<and> reg_writable (machine\<lparr>reg_path := Some ''a;;b;a''\<rparr>)
   \<and> reg_path (snd (remove_from_path (machine\<lparr>reg_path := Some ''a;;b;a''\<rparr>) example_target))
       = Some ''a;;b;a''"
  using remove_from_path_idempotent[of "''a;;b;a''" example_target "machine\<lparr>reg_path := Some ''a;;b;a''\<rparr>"]
  by (simp add: machine_def example_target_def bs_def)

text \<open>
  Claim C2, evaluated where it fails. The PATH value is \<open>C:\RuPing2\<close> and the directory
  to add is \<open>C:\RuPing\<close>, a substring of that entry: \<open>add_to_path\<close> returns \<open>True\<close>,
  changes nothing, and the directory is no segment of the PATH value.
\<close>

theorem add_to_path_substring:
  "contains (''C:'' @ [bs] @ ''RuPing2'') target_dir
   \<and> add_to_path (machine\<lparr>reg_path := Some (''C:'' @ [bs] @ ''RuPing2'')\<rparr>) target_dir
       = (True, machine\<lparr>reg_path := Some (''C:'' @ [bs] @ ''RuPing2'')\<rparr>)
   \<and> target_dir \<notin> set (split (''C:'' @ [bs] @ ''RuPing2'') CHR '';'')"
  by (simp add: add_to_path_def target_dir_def bs_def)

text \<open>
  Claim C5, evaluated where it fails. Adding \<open>C:\RuPing\<close> to the PATH value
  \<open>C:\Windows\<close> notifies through \<open>SendMessageW\<close>, the call without a timeout, while
  removing notifies through \<open>SendMessageTimeoutW\<close> with \<open>SMTO_ABORTIFHUNG\<close> and 3000 ms.
\<close>

theorem add_to_path_broadcast_unbounded:
  "add_to_path machine target_dir =
     (True, machine\<lparr>reg_path := Some (''C:'' @ [bs] @ ''Windows;C:'' @ [bs] @ ''RuPing''),
                    sent := [SendMessageW 0xFFFF 0x1A]\<rparr>)
   \<and> sent (snd (remove_from_path machine target_dir)) = [SendMessageTimeoutW 0xFFFF 0x1A 2 3000]"
  by (simp add: add_to_path_def remove_from_path_def machine_def target_dir_def bs_def Let_def
       HWND_BROADCAST_def WM_SETTINGCHANGE_def SMTO_ABORTIFHUNG_def)

section \<open>Running the concrete machine\<close>

lemmas machine_defs = machine_def target_dir_def bundle_dir_def programdata_dir_def bs_def

lemmas fs_defs = mkdir_def dir_exists_def file_exists_def read_file_def write_file_def
  copy2_def unlink_def rmdir_def has_entries_def in_parent_def pjoin_def start_menu_dir_def

lemmas installer_defs = install_def chosen_install_dir_def require_admin_def is_admin_def files_to_extract_def
  exe_name_def aliases_def extract_embedded_file_def EMBEDDED_FILES_def cmd_text_def
  endswith_def add_to_path_def create_start_menu_shortcut_def save_install_info_def
  install_info_file_def install_info_def url_content_def HWND_BROADCAST_def
  WM_SETTINGCHANGE_def Let_def

lemmas uninstaller_defs = uninstall_def un_require_admin_def is_admin_def
  locate_installation_def find_installation_def find_by_heuristics_def load_info_def
  current_dir_def possible_paths_def environ_get_def app_name_def install_info_file_def
  confirm_and_uninstall_def confirm_def input_def print_def do_uninstall_def
  remove_from_path_def remove_start_menu_shortcut_def default_files_def
  remove_dir_if_empty_def HWND_BROADCAST_def WM_SETTINGCHANGE_def SMTO_ABORTIFHUNG_def
  strip_def lower_def lower_char_def isspace_def Let_def

lemma install_machine:
  "install machine (Some target_dir) False True =
     (Returned True,
      machine\<lparr>reg_path := Some (''C:'' @ [bs] @ ''Windows;C:'' @ [bs] @ ''RuPing''),
              sent := [SendMessageW 0xFFFF 0x1A],
              fs := (fs machine)
                (target_dir \<mapsto>
                   [(''ruping.exe'', Raw ''MZ-ruping''),
                    (''ruping-uninstaller.exe'', Raw ''MZ-uninstaller''),
                    (''ruping.cmd'', Raw cmd_text),
                    (''rustping.cmd'', Raw cmd_text),
                    (''rping.cmd'', Raw cmd_text),
                    (''install_info.json'', Json (install_info target_dir))],
                 start_menu_dir programdata_dir \<mapsto>
                   [(''RuPing.url'', Raw (url_content target_dir))])\<rparr>)"
  apply (simp add: machine_defs fs_defs installer_defs)
  apply (rule ext)
  apply simp
  done

lemma installed_machine_eq:
  "installed_machine =
      machine\<lparr>reg_path := Some (''C:'' @ [bs] @ ''Windows;C:'' @ [bs] @ ''RuPing''),
              sent := [SendMessageW 0xFFFF 0x1A],
              fs := (fs machine)
                (target_dir \<mapsto>
                   [(''ruping.exe'', Raw ''MZ-ruping''),
                    (''ruping-uninstaller.exe'', Raw ''MZ-uninstaller''),
                    (''ruping.cmd'', Raw cmd_text),
                    (''rustping.cmd'', Raw cmd_text),
                    (''rping.cmd'', Raw cmd_text),
                    (''install_info.json'', Json (install_info target_dir))],
                 start_menu_dir programdata_dir \<mapsto>
                   [(''RuPing.url'', Raw (url_content target_dir))])\<rparr>"
  by (simp add: installed_machine_def install_machine)

section \<open>Deleting files\<close>

lemma unlink_denied: "unlink w d n = Some w' \<Longrightarrow> denied w' = denied w"
  by (auto simp: unlink_def split: option.splits if_splits)

lemma unlink_other:
  "unlink w d n = Some w' \<Longrightarrow> (d', n') \<noteq> (d, n) \<Longrightarrow> read_file w' d' n' = read_file w d' n'"
  by (auto simp: unlink_def read_file_def delete_conv' split: option.splits if_splits)

lemma unlink_gone: "unlink w d n = Some w' \<Longrightarrow> \<not> file_exists w' d n"
  by (auto simp: unlink_def file_exists_def read_file_def delete_conv' split: option.splits if_splits)

lemma unlink_antitone:
  "unlink w d n = Some w' \<Longrightarrow> file_exists w' d' n' \<Longrightarrow> file_exists w d' n'"
proof (cases "(d', n') = (d, n)")
  case True
  then show "unlink w d n = Some w' \<Longrightarrow> file_exists w' d' n' \<Longrightarrow> file_exists w d' n'"
    using unlink_gone by auto
next
  case False
  then show "unlink w d n = Some w' \<Longrightarrow> file_exists w' d' n' \<Longrightarrow> file_exists w d' n'"
    using unlink_other[of w d n w' d' n'] by (simp add: file_exists_def)
qed

lemma unlink_succeeds:
  "file_exists w d n \<Longrightarrow> (d, n) \<notin> set (denied w) \<Longrightarrow> \<exists>w'. unlink w d n = Some w'"
  by (auto simp: unlink_def file_exists_def read_file_def split: option.splits)

lemma remove_files_denied: "denied (remove_files w d files) = denied w"
  by (induction w d files rule: remove_files.induct) (auto simp: unlink_denied split: option.splits)

lemma remove_files_antitone:
  "file_exists (remove_files w d files) d' n' \<Longrightarrow> file_exists w d' n'"
  by (induction w d files rule: remove_files.induct)
     (auto simp: unlink_antitone split: option.splits if_splits)

lemma remove_files_other:
  "d' \<noteq> d \<or> n' \<notin> set files \<Longrightarrow> read_file (remove_files w d files) d' n' = read_file w d' n'"
  by (induction w d files rule: remove_files.induct)
     (auto simp: unlink_other split: option.splits)

lemma remove_files_gone:
  "n \<in> set files \<Longrightarrow> (d, n) \<notin> set (denied w) \<Longrightarrow> \<not> file_exists (remove_files w d files) d n"
proof (induction w d files rule: remove_files.induct)
  case (1 w install_dir)
  then show ?case by simp
next
  case (2 w install_dir filename rest)
  show ?case
  proof (cases "file_exists w install_dir filename")
    case False
    show ?thesis
    proof (cases "n = filename")
      case True
      with False show ?thesis using remove_files_antitone by auto
    next
      case neq: False
      with 2 False show ?thesis by auto
    qed
  next
    case True
    show ?thesis
    proof (cases "unlink w install_dir filename")
      case None
      with True 2 unlink_succeeds[of w install_dir filename] have "n \<noteq> filename" by auto
      with 2 True None show ?thesis by auto
    next
      case (Some w')
      show ?thesis
      proof (cases "n = filename")
        case eq: True
        have "\<not> file_exists w' install_dir n" using Some eq unlink_gone by blast
        then have "\<not> file_exists (remove_files w' install_dir rest) install_dir n"
          using remove_files_antitone by blast
        with True Some show ?thesis by simp
      next
        case False
        with 2 True Some show ?thesis by (auto simp: unlink_denied)
      qed
    qed
  qed
qed

lemma remove_dir_if_empty_antitone:
  "file_exists (remove_dir_if_empty w d) d' n' \<Longrightarrow> file_exists w d' n'"
  by (auto simp: remove_dir_if_empty_def rmdir_def has_entries_def file_exists_def read_file_def
      split: option.splits if_splits)

lemma remove_dir_if_empty_keeps:
  "file_exists w d n \<Longrightarrow> remove_dir_if_empty w d = w"
  by (auto simp: remove_dir_if_empty_def has_entries_def file_exists_def read_file_def
      split: option.splits)

lemma remove_dir_if_empty_subdir:
  "(d, n) \<in> set (subdirs w) \<Longrightarrow> remove_dir_if_empty w d = w"
  by (force simp: remove_dir_if_empty_def has_entries_def split: option.splits)

lemma remove_from_path_frame:
  "fs (snd (remove_from_path w p)) = fs w" "denied (snd (remove_from_path w p)) = denied w"
  by (auto simp: remove_from_path_def Let_def split: option.splits)

lemma remove_from_path_read:
  "read_file (snd (remove_from_path w p)) d n = read_file w d n"
  by (simp add: read_file_def remove_from_path_frame)

lemma remove_shortcuts_denied:
  "denied (snd (remove_shortcuts w sm names removed)) = denied w"
  by (induction w sm names removed rule: remove_shortcuts.induct)
     (auto simp: unlink_denied split: option.splits)

lemma remove_shortcuts_other:
  "n' \<notin> set names \<Longrightarrow>
   read_file (snd (remove_shortcuts w sm names removed)) d' n' = read_file w d' n'"
  by (induction w sm names removed rule: remove_shortcuts.induct)
     (auto simp: unlink_other split: option.splits)

lemma remove_start_menu_shortcut_denied:
  "denied (snd (remove_start_menu_shortcut w)) = denied w"
  by (auto simp: remove_start_menu_shortcut_def remove_shortcuts_denied
      simp del: remove_shortcuts.simps split: option.splits)

lemma remove_start_menu_shortcut_other:
  "n' \<notin> {''RuPing.lnk'', ''RuPing.url''} \<Longrightarrow>
   read_file (snd (remove_start_menu_shortcut w)) d' n' = read_file w d' n'"
  by (auto simp: remove_start_menu_shortcut_def remove_shortcuts_other
      simp del: remove_shortcuts.simps split: option.splits)

lemma do_uninstall_default_gone:
  assumes "n \<in> set default_files" and "(d, n) \<notin> set (denied w)"
  shows "\<not> file_exists (do_uninstall w d None) d n"
proof -
  let ?w2 = "snd (remove_start_menu_shortcut (snd (remove_from_path w d)))"
  have "denied ?w2 = denied w"
    by (simp add: remove_start_menu_shortcut_denied remove_from_path_frame)
  with assms have "\<not> file_exists (remove_files ?w2 d default_files) d n"
    by (intro remove_files_gone) auto
  then show ?thesis
    using remove_dir_if_empty_antitone by (auto simp: do_uninstall_def Let_def)
qed

lemma do_uninstall_keeps:
  assumes "file_exists w d n" and "n \<notin> set default_files"
    and "n \<notin> {''RuPing.lnk'', ''RuPing.url''}"
  shows "read_file (do_uninstall w d None) d n = read_file w d n"
    and "read_file (do_uninstall w d (Some (i\<lparr>info_installed_files := None\<rparr>))) d n = read_file w d n"
proof -
  let ?w2 = "snd (remove_start_menu_shortcut (snd (remove_from_path w d)))"
  let ?w3 = "remove_files ?w2 d default_files"
  have r2: "read_file ?w2 d n = read_file w d n"
    using assms(3) by (simp add: remove_start_menu_shortcut_other remove_from_path_read)
  have r3: "read_file ?w3 d n = read_file w d n"
    using assms(2) r2 by (simp add: remove_files_other)
  then have "file_exists ?w3 d n" using assms(1) by (simp add: file_exists_def)
  then have "remove_dir_if_empty ?w3 d = ?w3" by (rule remove_dir_if_empty_keeps)
  with r3 show "read_file (do_uninstall w d None) d n = read_file w d n"
    and "read_file (do_uninstall w d (Some (i\<lparr>info_installed_files := None\<rparr>))) d n = read_file w d n"
    by (simp_all add: do_uninstall_def Let_def)
qed

section \<open>Writing files\<close>

lemma mkdir_grows: "mkdir w d = Some w' \<Longrightarrow> file_exists w a c \<Longrightarrow> file_exists w' a c"
  by (auto simp: mkdir_def dir_exists_def file_exists_def read_file_def split: if_splits option.splits)

lemma write_file_grows:
  "write_file w d n x = Some w' \<Longrightarrow> file_exists w a c \<Longrightarrow> file_exists w' a c"
  by (auto simp: write_file_def file_exists_def read_file_def update_conv'
      split: if_splits option.splits)

lemma write_file_written: "write_file w d n x = Some w' \<Longrightarrow> read_file w' d n = Some x"
  by (auto simp: write_file_def read_file_def update_conv' split: if_splits option.splits)

lemma copy2_grows: "copy2 w src dst = Some w' \<Longrightarrow> file_exists w a c \<Longrightarrow> file_exists w' a c"
  by (auto simp: copy2_def write_file_grows split: if_splits option.splits)

lemma copy2_written:
  "copy2 w src dst = Some w' \<Longrightarrow> read_file w' (fst dst) (snd dst) = read_file w (fst src) (snd src)"
  by (auto simp: copy2_def write_file_written split: if_splits option.splits)

lemma in_parent_grows:
  assumes "in_parent w d act = (b, w')"
    and "\<And>w1 w2. act w1 = Some w2 \<Longrightarrow> file_exists w1 a c \<Longrightarrow> file_exists w2 a c"
    and "file_exists w a c"
  shows "file_exists w' a c"
  using assms by (auto simp: in_parent_def mkdir_grows split: option.splits)

lemma try_local_paths_grows:
  "try_local_paths w ps tgt = (b, w') \<Longrightarrow> file_exists w a c \<Longrightarrow> file_exists w' a c"
proof (induction w ps tgt rule: try_local_paths.induct)
  case (1 w target_path)
  then show ?case by simp
next
  case (2 w local_path rest target_path)
  show ?case
  proof (cases "file_exists w (fst local_path) (snd local_path)")
    case False
    with 2 show ?thesis by simp
  next
    case True
    obtain b1 w1 where ip: "in_parent w (fst target_path) (\<lambda>w1. copy2 w1 local_path target_path) = (b1, w1)"
      by (cases "in_parent w (fst target_path) (\<lambda>w1. copy2 w1 local_path target_path)")
    have g: "file_exists w1 a c"
      using ip copy2_grows "2.prems"(2) by (rule in_parent_grows)
    show ?thesis
    proof (cases b1)
      case True
      with 2 \<open>file_exists w (fst local_path) (snd local_path)\<close> ip g show ?thesis by simp
    next
      case False
      with 2 \<open>file_exists w (fst local_path) (snd local_path)\<close> ip g show ?thesis by simp
    qed
  qed
qed

lemma in_parent_copy_written:
  "in_parent w (fst tgt) (\<lambda>w1. copy2 w1 src tgt) = (True, w') \<Longrightarrow> file_exists w' (fst tgt) (snd tgt)"
  by (auto simp: in_parent_def file_exists_def copy2_def write_file_written
      split: option.splits if_splits)

lemma in_parent_write_written:
  "in_parent w (fst tgt) (\<lambda>w1. write_file w1 (fst tgt) (snd tgt) x) = (True, w') \<Longrightarrow>
   read_file w' (fst tgt) (snd tgt) = Some x"
  by (auto simp: in_parent_def write_file_written split: option.splits)

lemma try_local_paths_written:
  "try_local_paths w ps tgt = (True, w') \<Longrightarrow> file_exists w' (fst tgt) (snd tgt)"
proof (induction w ps tgt rule: try_local_paths.induct)
  case (1 w target_path)
  then show ?case by simp
next
  case (2 w local_path rest target_path)
  then show ?case
    by (auto simp: in_parent_copy_written split: if_splits prod.splits bool.splits)
qed

lemma write_file_exists: "write_file w d n x = Some w' \<Longrightarrow> file_exists w' d n"
  by (simp add: file_exists_def write_file_written)

lemma in_parent_write_exists:
  "in_parent w (fst tgt) (\<lambda>w1. write_file w1 (fst tgt) (snd tgt) x) = (True, w') \<Longrightarrow>
   file_exists w' (fst tgt) (snd tgt)"
  by (simp add: file_exists_def in_parent_write_written)

lemma extract_embedded_file_grows:
  assumes "extract_embedded_file w filename tgt = (b, w')" and "file_exists w a c"
  shows "file_exists w' a c"
proof -
  have cp: "file_exists w1 a c"
    if "in_parent w (fst tgt) (\<lambda>w1. copy2 w1 src tgt) = (b1, w1)" for src b1 w1
    using that copy2_grows assms(2) by (rule in_parent_grows)
  have wr: "file_exists w1 a c"
    if "in_parent w (fst tgt) (\<lambda>w1. write_file w1 (fst tgt) (snd tgt) x) = (b1, w1)" for x b1 w1
    using that write_file_grows assms(2) by (rule in_parent_grows)
  show ?thesis
    using assms cp wr try_local_paths_grows[of w _ tgt b w' a c]
    by (auto simp: extract_embedded_file_def Let_def write_file_grows
        split: option.splits if_splits prod.splits bool.splits)
qed

lemma extract_embedded_file_written:
  assumes "extract_embedded_file w filename tgt = (True, w')"
  shows "file_exists w' (fst tgt) (snd tgt)"
  using assms
  by (auto simp: extract_embedded_file_def Let_def try_local_paths_written
      in_parent_write_exists write_file_exists
      split: option.splits if_splits prod.splits bool.splits)

lemma extract_files_grows:
  "extract_files w d files = (b, w') \<Longrightarrow> file_exists w a c \<Longrightarrow> file_exists w' a c"
proof (induction w d files rule: extract_files.induct)
  case (1 w install_dir)
  then show ?case by simp
next
  case (2 w install_dir filename rest)
  obtain b1 w1 where e: "extract_embedded_file w filename (install_dir, filename) = (b1, w1)"
    by (cases "extract_embedded_file w filename (install_dir, filename)")
  then have g: "file_exists w1 a c" using "2.prems"(2) by (rule extract_embedded_file_grows)
  show ?case
  proof (cases b1)
    case True
    with 2 e g show ?thesis by simp
  next
    case False
    with 2 e g show ?thesis by (auto simp: print_def file_exists_def read_file_def)
  qed
qed

lemma extract_files_written:
  "extract_files w d files = (True, w') \<Longrightarrow> f \<in> set files \<Longrightarrow> file_exists w' d f"
proof (induction w d files rule: extract_files.induct)
  case (1 w install_dir)
  then show ?case by simp
next
  case (2 w install_dir filename rest)
  obtain b1 w1 where e: "extract_embedded_file w filename (install_dir, filename) = (b1, w1)"
    by (cases "extract_embedded_file w filename (install_dir, filename)")
  with "2.prems"(1) have b1: "b1" and rest: "extract_files w1 install_dir rest = (True, w')"
    by (auto split: bool.splits)
  show ?case
  proof (cases "f = filename")
    case True
    have "file_exists w1 install_dir filename"
      using e b1 extract_embedded_file_written[of w filename "(install_dir, filename)" w1] by simp
    with rest True show ?thesis using extract_files_grows by blast
  next
    case False
    with 2 e b1 rest show ?thesis by auto
  qed
qed

lemma add_to_path_fs: "fs (snd (add_to_path w p)) = fs w"
  by (auto simp: add_to_path_def Let_def split: option.splits)

lemma create_start_menu_shortcut_grows:
  "file_exists w a c \<Longrightarrow> file_exists (snd (create_start_menu_shortcut w d)) a c"
  by (auto simp: create_start_menu_shortcut_def write_file_grows split: option.splits)

lemma save_install_info_grows:
  "file_exists w a c \<Longrightarrow> file_exists (save_install_info w d) a c"
  by (auto simp: save_install_info_def write_file_grows split: option.splits)

lemma install_writes_files:
  assumes "install w0 install_path no_path silent = (Returned True, w)"
    and "f \<in> set files_to_extract"
  shows "file_exists w (chosen_install_dir w0 install_path) f"
proof -
  let ?d = "chosen_install_dir w0 install_path"
  from assms(1) obtain w1 w2 where
    mk: "mkdir w0 ?d = Some w1" and ex: "extract_files w1 ?d files_to_extract = (True, w2)"
    and w: "w = save_install_info (snd (create_start_menu_shortcut
               (if \<not> no_path then snd (add_to_path w2 ?d) else w2) ?d)) ?d"
    by (auto simp: install_def require_admin_def Let_def
        split: if_splits option.splits prod.splits bool.splits)
  have "file_exists w2 ?d f" using ex assms(2) by (rule extract_files_written)
  then have "file_exists (if \<not> no_path then snd (add_to_path w2 ?d) else w2) ?d f"
    by (simp add: file_exists_def read_file_def add_to_path_fs)
  then show ?thesis
    unfolding w by (intro save_install_info_grows create_start_menu_shortcut_grows)
qed

section \<open>Where a file is taken from\<close>

lemma mkdir_same:
  assumes "mkdir w d = Some w1"
  shows "read_file w1 a c = read_file w a c" and "denied w1 = denied w"
    and "protected_dirs w1 = protected_dirs w" and "dir_exists w1 d"
  using assms
  by (auto simp: mkdir_def dir_exists_def read_file_def split: if_splits option.splits)

lemma mkdir_possible:
  "dir_exists w d \<or> d \<notin> set (protected_dirs w) \<Longrightarrow> \<exists>w1. mkdir w d = Some w1"
  by (auto simp: mkdir_def)

lemma write_file_possible:
  "dir_exists w d \<Longrightarrow> (d, n) \<notin> set (denied w) \<Longrightarrow> \<exists>w'. write_file w d n x = Some w'"
  by (auto simp: write_file_def dir_exists_def split: option.splits)

text \<open>One attempt to copy a candidate that exists into a target that can be written.\<close>

lemma copy_attempt:
  assumes "tgt \<notin> set (denied w)"
    and "dir_exists w (fst tgt) \<or> fst tgt \<notin> set (protected_dirs w)"
    and "read_file w (fst p) (snd p) = Some x"
  obtains (copied) w' where "p \<notin> set (denied w)" "p \<noteq> tgt"
      "in_parent w (fst tgt) (\<lambda>w1. copy2 w1 p tgt) = (True, w')"
      "read_file w' (fst tgt) (snd tgt) = Some x"
  | (skipped) w1 where "p \<in> set (denied w) \<or> p = tgt"
      "in_parent w (fst tgt) (\<lambda>w1. copy2 w1 p tgt) = (False, w1)"
      "mkdir w (fst tgt) = Some w1"
proof -
  obtain w1 where mk: "mkdir w (fst tgt) = Some w1"
    using mkdir_possible[OF assms(2)] by blast
  note same = mkdir_same[OF mk]
  show thesis
  proof (cases "p \<in> set (denied w) \<or> p = tgt")
    case True
    then have "copy2 w1 p tgt = None"
      using assms(3) same by (auto simp: copy2_def)
    then have "in_parent w (fst tgt) (\<lambda>w1. copy2 w1 p tgt) = (False, w1)"
      using mk by (simp add: in_parent_def)
    with True mk show thesis using skipped by blast
  next
    case False
    obtain w' where wr: "write_file w1 (fst tgt) (snd tgt) x = Some w'"
      using write_file_possible[of w1 "fst tgt" "snd tgt" x] same assms(1) by auto
    then have cp: "copy2 w1 p tgt = Some w'"
      using False assms(3) same by (auto simp: copy2_def)
    have "in_parent w (fst tgt) (\<lambda>w1. copy2 w1 p tgt) = (True, w')"
      using mk cp by (simp add: in_parent_def)
    moreover have "read_file w' (fst tgt) (snd tgt) = Some x"
      using wr by (rule write_file_written)
    ultimately show thesis using False copied by blast
  qed
qed

lemma try_local_paths_find:
  assumes "tgt \<notin> set (denied w)"
    and "dir_exists w (fst tgt) \<or> fst tgt \<notin> set (protected_dirs w)"
  shows "case List.find (\<lambda>p. file_exists w (fst p) (snd p) \<and> p \<notin> set (denied w) \<and> p \<noteq> tgt) ps of
           None \<Rightarrow> \<not> fst (try_local_paths w ps tgt)
         | Some p \<Rightarrow> fst (try_local_paths w ps tgt)
             \<and> read_file (snd (try_local_paths w ps tgt)) (fst tgt) (snd tgt)
                 = read_file w (fst p) (snd p)"
  using assms
proof (induction ps arbitrary: w)
  case Nil
  then show ?case by simp
next
  case (Cons p ps)
  show ?case
  proof (cases "read_file w (fst p) (snd p)")
    case None
    then have nex: "\<not> file_exists w (fst p) (snd p)" by (simp add: file_exists_def)
    then have step: "try_local_paths w (p # ps) tgt = try_local_paths w ps tgt" by simp
    show ?thesis
      unfolding step using Cons.IH[OF Cons.prems] nex by simp
  next
    case (Some x)
    then have ex: "file_exists w (fst p) (snd p)" by (simp add: file_exists_def)
    from Cons.prems Some show ?thesis
    proof (cases rule: copy_attempt)
      case (copied w')
      with ex Some show ?thesis by simp
    next
      case (skipped w1)
      note same = mkdir_same[OF skipped(3)]
      have pred: "(\<lambda>p. file_exists w1 (fst p) (snd p) \<and> p \<notin> set (denied w1) \<and> p \<noteq> tgt)
                = (\<lambda>p. file_exists w (fst p) (snd p) \<and> p \<notin> set (denied w) \<and> p \<noteq> tgt)"
        using same by (simp add: file_exists_def)
      have "tgt \<notin> set (denied w1)" "dir_exists w1 (fst tgt) \<or> fst tgt \<notin> set (protected_dirs w1)"
        using Cons.prems same by auto
      from Cons.IH[OF this] have ih:
        "case List.find (\<lambda>p. file_exists w (fst p) (snd p) \<and> p \<notin> set (denied w) \<and> p \<noteq> tgt) ps of
           None \<Rightarrow> \<not> fst (try_local_paths w1 ps tgt)
         | Some q \<Rightarrow> fst (try_local_paths w1 ps tgt)
             \<and> read_file (snd (try_local_paths w1 ps tgt)) (fst tgt) (snd tgt)
                 = read_file w (fst q) (snd q)"
        unfolding pred using same(1) by (simp split: option.splits)
      have step: "try_local_paths w (p # ps) tgt = try_local_paths w1 ps tgt"
        using ex skipped(2) by simp
      from skipped(1) have nf: "\<not> (file_exists w (fst p) (snd p) \<and> p \<notin> set (denied w) \<and> p \<noteq> tgt)"
        by auto
      show ?thesis
        unfolding step using ih nf by auto
    qed
  qed
qed


lemma embedded_text_only:
  "map_of EMBEDDED_FILES name = Some c \<Longrightarrow> c \<noteq> [] \<Longrightarrow> \<not> endswith name ''.exe''"
  by (auto simp: EMBEDDED_FILES_def endswith_def split: if_splits)

lemma write_attempt:
  assumes "tgt \<notin> set (denied w)"
    and "dir_exists w (fst tgt) \<or> fst tgt \<notin> set (protected_dirs w)"
  shows "\<exists>w'. in_parent w (fst tgt) (\<lambda>w1. write_file w1 (fst tgt) (snd tgt) x) = (True, w')
            \<and> read_file w' (fst tgt) (snd tgt) = Some x"
proof -
  obtain w1 where mk: "mkdir w (fst tgt) = Some w1"
    using mkdir_possible[OF assms(2)] by blast
  note same = mkdir_same[OF mk]
  obtain w' where wr: "write_file w1 (fst tgt) (snd tgt) x = Some w'"
    using write_file_possible[of w1 "fst tgt" "snd tgt" x] same assms(1) by auto
  then show ?thesis
    using mk write_file_written[OF wr] by (simp add: in_parent_def)
qed

text \<open>
  Claim C3 as amended. The target can be written. A file of the bundle that can be read
  is what \<open>extract_embedded_file\<close> writes to the target. When the bundle does not hold
  the name, the table decides: a name with an entry that is not empty gets the text of
  the entry, whatever the local candidates hold; a name without an entry gets the
  contents of the first local candidate that exists and can be copied, and the
  extraction fails when there is none.
\<close>

theorem extract_embedded_file_sources:
  assumes "tgt \<notin> set (denied w)"
    and "dir_exists w (fst tgt) \<or> fst tgt \<notin> set (protected_dirs w)"
  shows "(\<forall>b x. meipass w = Some b \<and> read_file w b name = Some x
              \<and> (b, name) \<notin> set (denied w) \<and> (b, name) \<noteq> tgt \<longrightarrow>
            fst (extract_embedded_file w name tgt)
            \<and> read_file (snd (extract_embedded_file w name tgt)) (fst tgt) (snd tgt) = Some x)
       \<and> ((\<forall>b. meipass w = Some b \<longrightarrow> \<not> file_exists w b name) \<longrightarrow>
            (case map_of EMBEDDED_FILES name of
               Some c \<Rightarrow>
                 c \<noteq> [] \<longrightarrow>
                   fst (extract_embedded_file w name tgt)
                   \<and> read_file (snd (extract_embedded_file w name tgt)) (fst tgt) (snd tgt)
                       = Some (Raw c)
             | None \<Rightarrow>
                 (case List.find (\<lambda>p. file_exists w (fst p) (snd p) \<and> p \<notin> set (denied w) \<and> p \<noteq> tgt)
                         (local_paths w name) of
                    None \<Rightarrow> \<not> fst (extract_embedded_file w name tgt)
                  | Some p \<Rightarrow>
                      fst (extract_embedded_file w name tgt)
                      \<and> read_file (snd (extract_embedded_file w name tgt)) (fst tgt) (snd tgt)
                          = read_file w (fst p) (snd p))))"
proof (intro conjI allI impI)
  fix b x
  assume a: "meipass w = Some b \<and> read_file w b name = Some x
              \<and> (b, name) \<notin> set (denied w) \<and> (b, name) \<noteq> tgt"
  then have rd: "read_file w (fst (b, name)) (snd (b, name)) = Some x" by simp
  from assms rd obtain w' where
    ip: "in_parent w (fst tgt) (\<lambda>w1. copy2 w1 (b, name) tgt) = (True, w')"
    and r: "read_file w' (fst tgt) (snd tgt) = Some x"
    by (cases rule: copy_attempt) (use a in auto)
  have "extract_embedded_file w name tgt = (True, w')"
    using a ip r by (simp add: extract_embedded_file_def file_exists_def)
  with r show "fst (extract_embedded_file w name tgt)"
    and "read_file (snd (extract_embedded_file w name tgt)) (fst tgt) (snd tgt) = Some x"
    by simp_all
next
  assume nb: "\<forall>b. meipass w = Some b \<longrightarrow> \<not> file_exists w b name"
  then have unb: "\<not> (case meipass w of None \<Rightarrow> False | Some bd \<Rightarrow> file_exists w bd name)"
    by (auto split: option.splits)
  show "case map_of EMBEDDED_FILES name of
               Some c \<Rightarrow>
                 c \<noteq> [] \<longrightarrow>
                   fst (extract_embedded_file w name tgt)
                   \<and> read_file (snd (extract_embedded_file w name tgt)) (fst tgt) (snd tgt)
                       = Some (Raw c)
             | None \<Rightarrow>
                 (case List.find (\<lambda>p. file_exists w (fst p) (snd p) \<and> p \<notin> set (denied w) \<and> p \<noteq> tgt)
                         (local_paths w name) of
                    None \<Rightarrow> \<not> fst (extract_embedded_file w name tgt)
                  | Some p \<Rightarrow>
                      fst (extract_embedded_file w name tgt)
                      \<and> read_file (snd (extract_embedded_file w name tgt)) (fst tgt) (snd tgt)
                          = read_file w (fst p) (snd p))"
  proof (cases "map_of EMBEDDED_FILES name")
    case None
    then have "extract_embedded_file w name tgt = try_local_paths w (local_paths w name) tgt"
      using unb by (simp add: extract_embedded_file_def)
    with None try_local_paths_find[OF assms, of "local_paths w name"] show ?thesis
      by (simp split: option.splits)
  next
    case (Some c)
    show ?thesis
    proof (cases "c = []")
      case True
      with Some show ?thesis by simp
    next
      case False
      then have ne: "\<not> endswith name ''.exe''" using Some embedded_text_only by blast
      obtain w' where
        ip: "in_parent w (fst tgt) (\<lambda>w1. write_file w1 (fst tgt) (snd tgt) (Raw c)) = (True, w')"
        and r: "read_file w' (fst tgt) (snd tgt) = Some (Raw c)"
        using write_attempt[OF assms, of "Raw c"] by blast
      have "extract_embedded_file w name tgt = (True, w')"
        using unb Some False ne ip by (simp add: extract_embedded_file_def)
      with r Some show ?thesis by simp
    qed
  qed
qed

lemmas dev_defs = dev_machine_def machine_def target_dir_def bundle_dir_def programdata_dir_def
  bs_def start_menu_dir_def pjoin_def

text \<open>
  Claim C3 as stated fails: without a bundle, with a local \<open>ruping.cmd\<close> in the working
  directory (the first candidate) and the entry of the table for \<open>ruping.cmd\<close>, the
  target receives the text of the table, not the contents of the local file.
\<close>

theorem local_file_ignored:
  "meipass dev_machine = None
   \<and> (cwd dev_machine, ''ruping.cmd'') \<in> set (local_paths dev_machine ''ruping.cmd'')
   \<and> read_file dev_machine (cwd dev_machine) ''ruping.cmd'' = Some (Raw ''rem local'')
   \<and> map_of EMBEDDED_FILES ''ruping.cmd'' = Some cmd_text
   \<and> cmd_text \<noteq> []
   \<and> fst (extract_embedded_file dev_machine ''ruping.cmd'' (target_dir, ''ruping.cmd''))
   \<and> read_file (snd (extract_embedded_file dev_machine ''ruping.cmd'' (target_dir, ''ruping.cmd'')))
        target_dir ''ruping.cmd'' = Some (Raw cmd_text)
   \<and> Raw cmd_text \<noteq> Raw ''rem local''"
  by (simp add: dev_defs local_paths_def read_file_def file_exists_def EMBEDDED_FILES_def
      cmd_text_def extract_embedded_file_def endswith_def in_parent_def mkdir_def
      dir_exists_def write_file_def)

theorem extract_embedded_file_sources_witness:
  "(target_dir, ''ruping.exe'') \<notin> set (denied machine)
   \<and> target_dir \<notin> set (protected_dirs machine)
   \<and> meipass machine = Some bundle_dir
   \<and> read_file machine bundle_dir ''ruping.exe'' = Some (Raw ''MZ-ruping'')
   \<and> fst (extract_embedded_file machine ''ruping.exe'' (target_dir, ''ruping.exe''))
   \<and> read_file (snd (extract_embedded_file machine ''ruping.exe'' (target_dir, ''ruping.exe'')))
        target_dir ''ruping.exe'' = Some (Raw ''MZ-ruping'')
   \<and> meipass dev_machine = None
   \<and> map_of EMBEDDED_FILES ''ruping.cmd'' = Some cmd_text
   \<and> fst (extract_embedded_file dev_machine ''ruping.cmd'' (target_dir, ''ruping.cmd''))
   \<and> read_file (snd (extract_embedded_file dev_machine ''ruping.cmd'' (target_dir, ''ruping.cmd'')))
        target_dir ''ruping.cmd'' = Some (Raw cmd_text)
   \<and> map_of EMBEDDED_FILES ''ruping-uninstaller.exe'' = None
   \<and> List.find (\<lambda>p. file_exists dev_machine (fst p) (snd p) \<and> p \<notin> set (denied dev_machine)
                    \<and> p \<noteq> (target_dir, ''ruping-uninstaller.exe''))
        (local_paths dev_machine ''ruping-uninstaller.exe'')
       = Some (cwd_release dev_machine, ''ruping-uninstaller.exe'')
   \<and> fst (extract_embedded_file dev_machine ''ruping-uninstaller.exe''
             (target_dir, ''ruping-uninstaller.exe''))
   \<and> read_file (snd (extract_embedded_file dev_machine ''ruping-uninstaller.exe''
                        (target_dir, ''ruping-uninstaller.exe'')))
        target_dir ''ruping-uninstaller.exe'' = Some (Raw ''MZ-local-uninstaller'')
   \<and> map_of EMBEDDED_FILES ''ruping.ico'' = None
   \<and> List.find (\<lambda>p. file_exists dev_machine (fst p) (snd p) \<and> p \<notin> set (denied dev_machine)
                    \<and> p \<noteq> (target_dir, ''ruping.ico''))
        (local_paths dev_machine ''ruping.ico'') = None
   \<and> \<not> fst (extract_embedded_file dev_machine ''ruping.ico'' (target_dir, ''ruping.ico''))"
proof -
  have m1: "(target_dir, ''ruping.exe'') \<notin> set (denied machine)"
    and m2: "dir_exists machine (fst (target_dir, ''ruping.exe''))
             \<or> fst (target_dir, ''ruping.exe'') \<notin> set (protected_dirs machine)"
    and m3: "meipass machine = Some bundle_dir"
    and m4: "read_file machine bundle_dir ''ruping.exe'' = Some (Raw ''MZ-ruping'')"
    and m5: "(bundle_dir, ''ruping.exe'') \<noteq> (target_dir, ''ruping.exe'')"
    by (simp_all add: dev_defs read_file_def)
  have d1: "(target_dir, n) \<notin> set (denied dev_machine)"
    and d2: "dir_exists dev_machine (fst (target_dir, n))
             \<or> fst (target_dir, n) \<notin> set (protected_dirs dev_machine)"
    and d3: "meipass dev_machine = None"
    for n
    by (simp_all add: dev_defs)
  have t1: "map_of EMBEDDED_FILES ''ruping.cmd'' = Some cmd_text"
    and t2: "cmd_text \<noteq> []"
    and t3: "map_of EMBEDDED_FILES ''ruping-uninstaller.exe'' = None"
    and t4: "map_of EMBEDDED_FILES ''ruping.ico'' = None"
    by (simp_all add: EMBEDDED_FILES_def cmd_text_def)
  have f1: "List.find (\<lambda>p. file_exists dev_machine (fst p) (snd p) \<and> p \<notin> set (denied dev_machine)
                    \<and> p \<noteq> (target_dir, ''ruping-uninstaller.exe''))
        (local_paths dev_machine ''ruping-uninstaller.exe'')
       = Some (cwd_release dev_machine, ''ruping-uninstaller.exe'')"
    by (simp add: dev_defs local_paths_def endswith_def file_exists_def read_file_def)
  have f2: "List.find (\<lambda>p. file_exists dev_machine (fst p) (snd p) \<and> p \<notin> set (denied dev_machine)
                    \<and> p \<noteq> (target_dir, ''ruping.ico''))
        (local_paths dev_machine ''ruping.ico'') = None"
    by (simp add: dev_defs local_paths_def endswith_def file_exists_def read_file_def)
  have r1: "read_file dev_machine (cwd_release dev_machine) ''ruping-uninstaller.exe''
      = Some (Raw ''MZ-local-uninstaller'')"
    by (simp add: dev_defs read_file_def)
  show ?thesis
    using extract_embedded_file_sources[OF m1 m2, of "''ruping.exe''"]
      extract_embedded_file_sources[OF d1 d2, of "''ruping.cmd''" "''ruping.cmd''"]
      extract_embedded_file_sources[OF d1 d2, of "''ruping-uninstaller.exe''" "''ruping-uninstaller.exe''"]
      extract_embedded_file_sources[OF d1 d2, of "''ruping.ico''" "''ruping.ico''"]
      m1 m3 m4 m5 d3 t1 t2 t3 t4 f1 f2 r1
    by (simp add: machine_def)
qed

section \<open>The privilege gate\<close>

lemma not_admin: "user_is_admin w \<noteq> Some True \<Longrightarrow> \<not> is_admin w"
  by (cases "user_is_admin w") (auto simp: is_admin_def)

text \<open>
  Claim C6. When the probe does not answer that the user is an administrator (it answers
  no, or it raises), \<open>install\<close> and \<open>uninstall\<close> exit with code 1 after printing their
  two lines, and the machine is otherwise unchanged: no file, no PATH value, no
  broadcast.
\<close>

theorem not_elevated_no_mutation:
  assumes "user_is_admin w \<noteq> Some True"
  shows "install w install_path no_path silent =
           (Exited 1,
            w\<lparr>stdout := stdout w @ [''ERROR: Administrator privileges required.'',
                                     ''Please run this installer as administrator.'']\<rparr>)
       \<and> uninstall w install_path' silent' =
           (Exited 1,
            w\<lparr>stdout := stdout w @ [''ERROR: Administrator privileges required.'',
                                     ''Please run this uninstaller as administrator.'']\<rparr>)"
  using not_admin[OF assms]
  by (simp add: install_def uninstall_def require_admin_def un_require_admin_def print_def)

theorem not_elevated_no_mutation_witness:
  "user_is_admin (machine\<lparr>user_is_admin := None\<rparr>) \<noteq> Some True
   \<and> install (machine\<lparr>user_is_admin := None\<rparr>) (Some target_dir) False True =
       (Exited 1,
        machine\<lparr>user_is_admin := None,
                stdout := [''ERROR: Administrator privileges required.'',
                           ''Please run this installer as administrator.'']\<rparr>)
   \<and> uninstall (machine\<lparr>user_is_admin := None\<rparr>) (Some target_dir) True =
       (Exited 1,
        machine\<lparr>user_is_admin := None,
                stdout := [''ERROR: Administrator privileges required.'',
                           ''Please run this uninstaller as administrator.'']\<rparr>)"
  using not_elevated_no_mutation[of "machine\<lparr>user_is_admin := None\<rparr>" "Some target_dir" False True
      "Some target_dir" True]
  by (simp add: machine_def)

section \<open>The confirmation\<close>

lemma strip_no_break_space: "lower (strip [CHR 0xA0, CHR ''Y'', CHR 0x85]) = ''y''"
  by code_simp

lemma confirm_declined:
  assumes "stdin w = line # rest" and "lower (strip line) \<notin> {''y'', ''yes''}"
  shows "confirm_and_uninstall w d info False =
           (Returned False, w\<lparr>stdin := rest, stdout := stdout w @ [''Uninstall cancelled.'']\<rparr>)"
  using assms by (simp add: confirm_and_uninstall_def confirm_def input_def print_def)

text \<open>
  Claim C8. In an elevated run that is not silent and reaches the confirmation, with the
  directory found at once or typed in at the prompt, an answer other than \<open>y\<close> or
  \<open>yes\<close> makes \<open>uninstall\<close> return \<open>False\<close>; the machine differs from the one before
  only in the input read and the lines printed.
\<close>

theorem declined_no_side_effects:
  assumes "is_admin w" and "\<not> silent"
    and "(\<exists>d. fst (locate_installation w install_path) = Some d \<and> dir_exists w d
              \<and> stdin w = line # rest)
         \<or> ((fst (locate_installation w install_path) = None
              \<or> (\<exists>d. fst (locate_installation w install_path) = Some d \<and> \<not> dir_exists w d))
             \<and> (\<exists>custom. stdin w = custom # line # rest \<and> strip custom \<noteq> []
                    \<and> dir_exists w (strip custom)))"
    and "lower (strip line) \<notin> {''y'', ''yes''}"
  shows "\<exists>out. uninstall w install_path silent = (Returned False, w\<lparr>stdin := rest, stdout := out\<rparr>)"
proof -
  obtain found info where loc: "locate_installation w install_path = (found, info)"
    by (cases "locate_installation w install_path")
  from assms(3) show ?thesis
  proof
    assume "\<exists>d. fst (locate_installation w install_path) = Some d \<and> dir_exists w d
              \<and> stdin w = line # rest"
    then obtain d where d: "found = Some d" "dir_exists w d" "stdin w = line # rest"
      using loc by auto
    have "uninstall w install_path silent = confirm_and_uninstall w d info False"
      using assms(1,2) loc d by (simp add: uninstall_def un_require_admin_def)
    with confirm_declined[OF d(3) assms(4)] show ?thesis by auto
  next
    assume b: "(fst (locate_installation w install_path) = None
              \<or> (\<exists>d. fst (locate_installation w install_path) = Some d \<and> \<not> dir_exists w d))
             \<and> (\<exists>custom. stdin w = custom # line # rest \<and> strip custom \<noteq> []
                    \<and> dir_exists w (strip custom))"
    then obtain custom where c: "stdin w = custom # line # rest" "strip custom \<noteq> []"
        "dir_exists w (strip custom)"
      by auto
    let ?w2 = "w\<lparr>stdout := stdout w @ [''ERROR: RuPing installation not found.''], stdin := line # rest\<rparr>"
    have miss: "(case found of None \<Rightarrow> True | Some d \<Rightarrow> \<not> dir_exists w d)"
      using b loc by (auto split: option.splits)
    have "uninstall w install_path silent = confirm_and_uninstall ?w2 (strip custom) info False"
      using assms(1,2) loc miss c
      by (simp add: uninstall_def un_require_admin_def print_def input_def dir_exists_def)
    moreover have "confirm_and_uninstall ?w2 (strip custom) info False =
        (Returned False, ?w2\<lparr>stdin := rest, stdout := stdout ?w2 @ [''Uninstall cancelled.'']\<rparr>)"
      by (rule confirm_declined) (use assms(4) in simp_all)
    ultimately show ?thesis by auto
  qed
qed

lemma installed_machine_dir: "dir_exists installed_machine target_dir"
  by (simp add: installed_machine_eq dir_exists_def)

theorem declined_no_side_effects_witness:
  "is_admin (installed_machine\<lparr>stdin := ['' No '']\<rparr>)
   \<and> fst (locate_installation (installed_machine\<lparr>stdin := ['' No '']\<rparr>) (Some target_dir))
       = Some target_dir
   \<and> dir_exists (installed_machine\<lparr>stdin := ['' No '']\<rparr>) target_dir
   \<and> lower (strip '' No '') = ''no''
   \<and> uninstall (installed_machine\<lparr>stdin := ['' No '']\<rparr>) (Some target_dir) False =
       (Returned False, installed_machine\<lparr>stdin := [], stdout := [''Uninstall cancelled.'']\<rparr>)"
proof -
  let ?w = "installed_machine\<lparr>stdin := ['' No '']\<rparr>"
  have 1: "is_admin ?w" by (simp add: installed_machine_eq is_admin_def machine_def)
  have 2: "fst (locate_installation ?w (Some target_dir)) = Some target_dir"
    by (simp add: locate_installation_def target_dir_def)
  have 3: "dir_exists ?w target_dir" using installed_machine_dir by (simp add: dir_exists_def)
  have 4: "lower (strip '' No '') = ''no''"
    by code_simp
  have 5: "stdout installed_machine = []" by (simp add: installed_machine_eq machine_def)
  obtain out where o: "uninstall ?w (Some target_dir) False = (Returned False, ?w\<lparr>stdin := [], stdout := out\<rparr>)"
    using declined_no_side_effects[of ?w False "Some target_dir" "'' No ''" "[]"] 1 2 3 4
    by auto
  have "stdout (snd (uninstall ?w (Some target_dir) False)) = [''Uninstall cancelled.'']"
    using 1 3 4 5
    by (simp add: uninstall_def un_require_admin_def locate_installation_def target_dir_def
        confirm_and_uninstall_def confirm_def input_def print_def)
  with o have "out = [''Uninstall cancelled.'']" by simp
  with o 1 2 3 4 show ?thesis by simp
qed

section \<open>Finding the installation\<close>

lemma find_by_heuristics_exists: "find_by_heuristics w = Some d \<Longrightarrow> dir_exists w d"
  by (auto simp: find_by_heuristics_def dir_exists_def file_exists_def read_file_def
      find_Some_iff split: if_splits option.splits)

lemma confirm_frame: "confirm w silent = Some (b, w1) \<Longrightarrow> denied w1 = denied w \<and> fs w1 = fs w"
  by (auto simp: confirm_def input_def print_def split: if_splits list.splits)

lemma uninstall_found:
  assumes "is_admin w" and "locate_installation w install_path = (Some d, info)"
    and "dir_exists w d" and "confirm w silent = Some (True, w1)"
  shows "uninstall w install_path silent = (Returned True, do_uninstall w1 d info)"
  using assms by (simp add: uninstall_def un_require_admin_def confirm_and_uninstall_def)

lemma do_uninstall_unusable:
  "(case info of None \<Rightarrow> True | Some i \<Rightarrow> info_installed_files i = None) \<Longrightarrow>
   do_uninstall w d info = do_uninstall w d None"
  by (auto simp: do_uninstall_def split: option.splits)

text \<open>
  Claim C7. When the ledger file in the directory of the uninstaller holds bytes that are
  no JSON, \<open>find_installation\<close> returns what the heuristics find, with no ledger, which
  is also what it returns once that file is deleted. The default list names the main
  executable and the launcher script of every alias. When the run is elevated, the
  heuristics find a directory and the confirmation is given (or the run is silent),
  \<open>uninstall\<close> returns \<open>True\<close>, and no file of the default list that can be unlinked is
  left in that directory.
\<close>

theorem corrupt_ledger_falls_back:
  assumes "fs w (current_dir w) = Some es"
    and "map_of es install_info_file = Some (Raw bytes)"
  shows "find_installation w = (find_by_heuristics w, None)
       \<and> find_installation (w\<lparr>fs := (fs w)(current_dir w \<mapsto> AList.delete install_info_file es)\<rparr>)
           = find_installation w
       \<and> exe_name \<in> set default_files
       \<and> (\<forall>alias \<in> set aliases. alias @ ''.cmd'' \<in> set default_files)
       \<and> (is_admin w \<and> find_by_heuristics w = Some d \<and> confirm w silent = Some (True, w1) \<longrightarrow>
            uninstall w None silent = (Returned True, do_uninstall w1 d None)
            \<and> (\<forall>n \<in> set default_files. (d, n) \<notin> set (denied w) \<longrightarrow>
                  \<not> file_exists (do_uninstall w1 d None) d n))"
proof -
  let ?w' = "w\<lparr>fs := (fs w)(current_dir w \<mapsto> AList.delete install_info_file es)\<rparr>"
  have present: "file_exists w (current_dir w) install_info_file"
    using assms by (simp add: file_exists_def read_file_def)
  have noload: "load_info w (current_dir w) = None"
    using assms by (simp add: load_info_def read_file_def)
  have a: "find_installation w = (find_by_heuristics w, None)"
    using present noload by (simp add: find_installation_def)
  have cd: "current_dir ?w' = current_dir w" by (simp add: current_dir_def split: option.splits)
  have absent: "\<not> file_exists ?w' (current_dir ?w') install_info_file"
    by (simp add: cd file_exists_def read_file_def delete_conv')
  have exe: "file_exists ?w' p ''ruping.exe'' = file_exists w p ''ruping.exe''" for p
    using assms(1)
    by (simp add: file_exists_def read_file_def delete_conv' install_info_file_def)
  have dir: "dir_exists ?w' p = dir_exists w p" for p
    using assms(1) by (simp add: dir_exists_def)
  have pp: "possible_paths ?w' = possible_paths w"
    by (simp add: possible_paths_def environ_get_def)
  have heur: "find_by_heuristics ?w' = find_by_heuristics w"
    by (simp add: find_by_heuristics_def cd exe dir pp)
  have b: "find_installation ?w' = find_installation w"
    using absent heur a by (simp add: find_installation_def)
  have c: "exe_name \<in> set default_files \<and> (\<forall>alias \<in> set aliases. alias @ ''.cmd'' \<in> set default_files)"
    by (simp add: exe_name_def aliases_def default_files_def)
  have d: "uninstall w None silent = (Returned True, do_uninstall w1 d None)
         \<and> (\<forall>n \<in> set default_files. (d, n) \<notin> set (denied w) \<longrightarrow>
               \<not> file_exists (do_uninstall w1 d None) d n)"
    if "is_admin w" and h: "find_by_heuristics w = Some d" and cf: "confirm w silent = Some (True, w1)"
  proof -
    have "locate_installation w None = (Some d, None)"
      using a h by (simp add: locate_installation_def)
    then have "uninstall w None silent = (Returned True, do_uninstall w1 d None)"
      using that find_by_heuristics_exists[OF h] by (intro uninstall_found) auto
    moreover have "denied w1 = denied w" using confirm_frame[OF cf] by simp
    ultimately show ?thesis using do_uninstall_default_gone by auto
  qed
  from a b c d show ?thesis by blast
qed

lemmas corrupt_machine_eq = corrupt_machine_def installed_machine_eq

theorem corrupt_ledger_falls_back_witness:
  "fs corrupt_machine (current_dir corrupt_machine) =
     Some [(''ruping.exe'', Raw ''MZ-ruping''),
           (''ruping-uninstaller.exe'', Raw ''MZ-uninstaller''),
           (''ruping.cmd'', Raw cmd_text),
           (''rustping.cmd'', Raw cmd_text),
           (''rping.cmd'', Raw cmd_text),
           (''install_info.json'', Raw ''{install_path: '')]
   \<and> is_admin corrupt_machine
   \<and> find_by_heuristics corrupt_machine = Some target_dir
   \<and> confirm corrupt_machine True = Some (True, corrupt_machine)
   \<and> find_installation corrupt_machine = (Some target_dir, None)
   \<and> uninstall corrupt_machine None True =
       (Returned True, do_uninstall corrupt_machine target_dir None)
   \<and> \<not> file_exists (do_uninstall corrupt_machine target_dir None) target_dir ''ruping.exe''
   \<and> \<not> file_exists (do_uninstall corrupt_machine target_dir None) target_dir ''rping.cmd''"
proof -
  have 1: "fs corrupt_machine (current_dir corrupt_machine) =
     Some [(''ruping.exe'', Raw ''MZ-ruping''),
           (''ruping-uninstaller.exe'', Raw ''MZ-uninstaller''),
           (''ruping.cmd'', Raw cmd_text),
           (''rustping.cmd'', Raw cmd_text),
           (''rping.cmd'', Raw cmd_text),
           (''install_info.json'', Raw ''{install_path: '')]"
    by (simp add: corrupt_machine_eq current_dir_def machine_defs start_menu_dir_def pjoin_def)
  have 2: "map_of [(''ruping.exe'', Raw ''MZ-ruping''),
           (''ruping-uninstaller.exe'', Raw ''MZ-uninstaller''),
           (''ruping.cmd'', Raw cmd_text),
           (''rustping.cmd'', Raw cmd_text),
           (''rping.cmd'', Raw cmd_text),
           (''install_info.json'', Raw ''{install_path: '')] install_info_file
        = Some (Raw ''{install_path: '')"
    by (simp add: install_info_file_def)
  have 3: "is_admin corrupt_machine"
    by (simp add: corrupt_machine_eq is_admin_def machine_def)
  have 4: "find_by_heuristics corrupt_machine = Some target_dir"
    by (simp add: corrupt_machine_eq find_by_heuristics_def current_dir_def machine_defs
        file_exists_def read_file_def start_menu_dir_def pjoin_def)
  have 5: "confirm corrupt_machine True = Some (True, corrupt_machine)"
    by (simp add: confirm_def)
  have 6: "denied corrupt_machine = []"
    by (simp add: corrupt_machine_eq machine_def)
  show ?thesis
    using corrupt_ledger_falls_back[OF 1 2, of target_dir True corrupt_machine] 1 3 4 5 6
    by (simp add: default_files_def)
qed

section \<open>Uninstalling without a ledger\<close>

text \<open>
  Claim C9. After a successful \<open>install\<close> the directory holds
  \<open>ruping-uninstaller.exe\<close>. The default list names \<open>uninstaller.py\<close> and not
  \<open>ruping-uninstaller.exe\<close>. An elevated \<open>uninstall\<close> that finds this directory
  without a ledger that lists the files, and is confirmed or silent, returns \<open>True\<close>
  and leaves that file as it was, so the directory is not empty and is kept.
\<close>

theorem default_list_keeps_uninstaller:
  assumes "install w0 install_path0 no_path silent0 = (Returned True, w)"
    and "is_admin w"
    and "locate_installation w install_path = (Some (chosen_install_dir w0 install_path0), info)"
    and "case info of None \<Rightarrow> True | Some i \<Rightarrow> info_installed_files i = None"
    and "confirm w silent = Some (True, w1)"
  shows "file_exists w (chosen_install_dir w0 install_path0) ''ruping-uninstaller.exe''
       \<and> ''uninstaller.py'' \<in> set default_files
       \<and> ''ruping-uninstaller.exe'' \<notin> set default_files
       \<and> (\<exists>w'. uninstall w install_path silent = (Returned True, w')
              \<and> read_file w' (chosen_install_dir w0 install_path0) ''ruping-uninstaller.exe''
                  = read_file w (chosen_install_dir w0 install_path0) ''ruping-uninstaller.exe''
              \<and> file_exists w' (chosen_install_dir w0 install_path0) ''ruping-uninstaller.exe''
              \<and> fs w' (chosen_install_dir w0 install_path0) \<noteq> Some []
              \<and> dir_exists w' (chosen_install_dir w0 install_path0))"
proof -
  let ?d = "chosen_install_dir w0 install_path0"
  let ?u = "''ruping-uninstaller.exe''"
  have ex: "file_exists w ?d ?u"
    using assms(1) by (rule install_writes_files) (simp add: files_to_extract_def)
  then have dir: "dir_exists w ?d"
    by (auto simp: file_exists_def read_file_def dir_exists_def split: option.splits)
  have lists: "''uninstaller.py'' \<in> set default_files" "?u \<notin> set default_files"
    by (simp_all add: default_files_def)
  have run: "uninstall w install_path silent = (Returned True, do_uninstall w1 ?d None)"
    using uninstall_found[OF assms(2) assms(3) dir assms(5)] do_uninstall_unusable[OF assms(4)]
    by simp
  have same: "read_file w1 ?d ?u = read_file w ?d ?u"
    using confirm_frame[OF assms(5)] by (simp add: read_file_def)
  with ex have ex1: "file_exists w1 ?d ?u" by (simp add: file_exists_def)
  have keep: "read_file (do_uninstall w1 ?d None) ?d ?u = read_file w ?d ?u"
    using do_uninstall_keeps(1)[OF ex1 lists(2)] same by simp
  with ex have after: "file_exists (do_uninstall w1 ?d None) ?d ?u" by (simp add: file_exists_def)
  then have "fs (do_uninstall w1 ?d None) ?d \<noteq> Some []" "dir_exists (do_uninstall w1 ?d None) ?d"
    by (auto simp: file_exists_def read_file_def dir_exists_def split: option.splits)
  with ex lists run keep after show ?thesis by simp
qed

theorem default_list_keeps_uninstaller_witness:
  "install machine (Some target_dir) False True = (Returned True, installed_machine)
   \<and> is_admin installed_machine
   \<and> locate_installation installed_machine (Some target_dir) = (Some target_dir, None)
   \<and> chosen_install_dir machine (Some target_dir) = target_dir
   \<and> confirm installed_machine True = Some (True, installed_machine)
   \<and> fst (uninstall installed_machine (Some target_dir) True) = Returned True
   \<and> read_file (snd (uninstall installed_machine (Some target_dir) True)) target_dir
        ''ruping-uninstaller.exe'' = Some (Raw ''MZ-uninstaller'')
   \<and> dir_exists (snd (uninstall installed_machine (Some target_dir) True)) target_dir"
proof -
  have 1: "install machine (Some target_dir) False True = (Returned True, installed_machine)"
    by (simp add: install_machine installed_machine_eq)
  have 2: "is_admin installed_machine"
    by (simp add: installed_machine_eq is_admin_def machine_def)
  have 4: "chosen_install_dir machine (Some target_dir) = target_dir"
    by (simp add: chosen_install_dir_def target_dir_def)
  have 3: "locate_installation installed_machine (Some target_dir)
             = (Some (chosen_install_dir machine (Some target_dir)), None)"
    by (simp add: 4) (simp add: locate_installation_def target_dir_def)
  have 5: "confirm installed_machine True = Some (True, installed_machine)"
    by (simp add: confirm_def)
  have 6: "read_file installed_machine target_dir ''ruping-uninstaller.exe'' = Some (Raw ''MZ-uninstaller'')"
    by (simp add: installed_machine_eq read_file_def machine_defs start_menu_dir_def pjoin_def)
  show ?thesis
    using default_list_keeps_uninstaller[OF 1 2 3 _ 5] 1 2 3 4 5 6 by auto
qed

section \<open>Installing and then uninstalling\<close>

text \<open>
  Claim C1, evaluated where it fails. The bundled installer installs into \<open>C:\RuPing\<close>
  on the concrete machine, then the uninstaller is run silently with that directory as
  its argument: it returns \<open>True\<close> and takes the directory out of the PATH value, but
  the deployed \<open>ruping-uninstaller.exe\<close> is still in the directory, which is kept.
\<close>

theorem roundtrip_keeps_uninstaller:
  "install machine (Some target_dir) False True = (Returned True, installed_machine)
   \<and> fst (uninstall installed_machine (Some target_dir) True) = Returned True
   \<and> fs (snd (uninstall installed_machine (Some target_dir) True)) target_dir
       = Some [(''ruping-uninstaller.exe'', Raw ''MZ-uninstaller'')]
   \<and> reg_path (snd (uninstall installed_machine (Some target_dir) True))
       = Some (''C:'' @ [bs] @ ''Windows'')"
  apply (simp add: install_machine installed_machine_eq)
  apply (simp add: machine_defs fs_defs uninstaller_defs)
  done

end
